theory Spec2Isabelle
  imports Main
begin


section \<open>Strings and the regular expressions of the template engine\<close>

text \<open>
  JavaScript strings are modelled as \<^typ>\<open>string\<close>, for ASCII text: the expressions
  of the source name ASCII characters only (braces, brackets, word characters, hyphen,
  underscore, slash), and every other character is an ordinary non-word character.

  \<open>is_word_char\<close> is the class \<^verbatim>\<open>\w\<close>; \<open>is_name_char\<close> is the class
  \<^verbatim>\<open>[\w-]\<close> of the two clean-up expressions of \<^verbatim>\<open>fillVariables\<close>.
\<close>

definition is_word_char :: "char \<Rightarrow> bool" where
  "is_word_char c \<longleftrightarrow>
     c \<in> set ''abcdefghijklmnopqrstuvwxyzABCDEFGHIJKLMNOPQRSTUVWXYZ0123456789_''"

definition is_name_char :: "char \<Rightarrow> bool" where
  "is_name_char c \<longleftrightarrow> is_word_char c \<or> c = CHR ''-''"

text \<open>
  The regular expressions the source builds are sequences of three kinds of items: a
  literal character (\<^verbatim>\<open>\{\<close>, or a character of an interpolated key), an optional
  literal character (\<^verbatim>\<open>\{?\<close>, used only to state the placeholder shape
  \<^verbatim>\<open>\{\{?[\w-]+\}\}?\<close>), and the greedy repetition \<^verbatim>\<open>[\w-]+\<close>.
\<close>

datatype item = Chr char | Opt char | NamePlus

type_synonym regex = "item list"

text \<open>
  \<open>match_here p s\<close> is the length of the match of \<open>p\<close> that starts at the head of
  \<open>s\<close>, found as a backtracking matcher finds it: an optional character is tried
  first, and \<^verbatim>\<open>[\w-]+\<close> takes the longest run first and gives characters back one
  at a time (\<open>first_some\<close> over the run lengths, longest first).
\<close>

fun first_some :: "'a option list \<Rightarrow> 'a option" where
  "first_some [] = None"
| "first_some (None # xs) = first_some xs"
| "first_some (Some y # xs) = Some y"

fun match_here :: "regex \<Rightarrow> string \<Rightarrow> nat option" where
  "match_here [] s = Some 0"
| "match_here (Chr c # p) s =
     (case s of [] \<Rightarrow> None
      | x # xs \<Rightarrow> if x = c then map_option Suc (match_here p xs) else None)"
| "match_here (Opt c # p) s =
     (case (case s of [] \<Rightarrow> None
            | x # xs \<Rightarrow> if x = c then map_option Suc (match_here p xs) else None) of
        Some n \<Rightarrow> Some n
      | None \<Rightarrow> match_here p s)"
| "match_here (NamePlus # p) s =
     first_some (map (\<lambda>k. map_option ((+) k) (match_here p (drop k s)))
                     (rev [1..<Suc (length (takeWhile is_name_char s))]))"

text \<open>\<open>contains_match p s\<close>: some substring of \<open>s\<close> matches \<open>p\<close>.\<close>

fun contains_match :: "regex \<Rightarrow> string \<Rightarrow> bool" where
  "contains_match p [] = (match_here p [] \<noteq> None)"
| "contains_match p (c # cs) = (match_here p (c # cs) \<noteq> None \<or> contains_match p cs)"

text \<open>
  The replacement text of \<^verbatim>\<open>String.prototype.replace\<close> is not literal: the runtime
  expands \<^verbatim>\<open>$$\<close>, \<^verbatim>\<open>$&\<close>, \<^verbatim>\<open>$`\<close> and \<^verbatim>\<open>$'\<close> in it. None of the
  expressions above has a capture group, so \<^verbatim>\<open>$1\<close> and \<^verbatim>\<open>$<name>\<close> stay as
  they are. Arguments: the matched text, the text before it, the text after it, the
  replacement.
\<close>

fun GetSubstitution :: "string \<Rightarrow> string \<Rightarrow> string \<Rightarrow> string \<Rightarrow> string" where
  "GetSubstitution m pre post [] = []"
| "GetSubstitution m pre post [c] = [c]"
| "GetSubstitution m pre post (c # d # r) =
     (if c \<noteq> CHR ''$'' then c # GetSubstitution m pre post (d # r)
      else if d = CHR ''$'' then CHR ''$'' # GetSubstitution m pre post r
      else if d = CHR ''&'' then m @ GetSubstitution m pre post r
      else if d = CHR 0x60 then pre @ GetSubstitution m pre post r
      else if d = CHR 0x27 then post @ GetSubstitution m pre post r
      else CHR ''$'' # GetSubstitution m pre post (d # r))"

text \<open>
  \<open>replace_from p repl pre s\<close> is \<^verbatim>\<open>(pre + s).replace(new RegExp(p, 'g'), repl)\<close>
  from the position where \<open>s\<close> starts: the scan goes from left to right, a match is
  replaced by the expansion of \<open>repl\<close> and the scan resumes after it, so that the text
  a replacement inserts is never scanned again by the same call. After an empty match
  the scan moves on by one character.
\<close>

fun replace_from :: "regex \<Rightarrow> string \<Rightarrow> string \<Rightarrow> string \<Rightarrow> string" where
  "replace_from p repl pre [] =
     (case match_here p [] of
        None \<Rightarrow> []
      | Some n \<Rightarrow> GetSubstitution [] pre [] repl)"
| "replace_from p repl pre (c # cs) =
     (case match_here p (c # cs) of
        None \<Rightarrow> c # replace_from p repl (pre @ [c]) cs
      | Some 0 \<Rightarrow> GetSubstitution [] pre (c # cs) repl @ c # replace_from p repl (pre @ [c]) cs
      | Some (Suc n) \<Rightarrow>
          GetSubstitution (c # take n cs) pre (drop n cs) repl @
          replace_from p repl (pre @ c # take n cs) (drop n cs))"

definition replace_all :: "regex \<Rightarrow> string \<Rightarrow> string \<Rightarrow> string" where
  "replace_all p repl s = replace_from p repl [] s"

section \<open>Template filling: \<^verbatim>\<open>fillVariables\<close>\<close>

text \<open>
  A variable's value is any JSON value. Only its string form matters:
  \<^verbatim>\<open>value !== null && value !== undefined ? String(value) : ''\<close>. \<open>NonString s\<close>
  is a value that is neither null, undefined nor a string, with \<open>s\<close> the text
  \<^verbatim>\<open>String(value)\<close> the runtime gives for it.
\<close>

datatype jsval = Null | Undefined | Str string | NonString string

fun stringValue :: "jsval \<Rightarrow> string" where
  "stringValue Null = []"
| "stringValue Undefined = []"
| "stringValue (Str s) = s"
| "stringValue (NonString s) = s"

text \<open>
  The key is interpolated into the source text of a regular expression without being
  escaped. A key without syntax characters is a sequence of literal characters there.
  For any other key the runtime either rejects the expression (a SyntaxError is thrown)
  or matches the key as an expression of its own; that part of the runtime is the
  parameter \<open>rt\<close> of the model: \<open>rt key value text\<close> is the error message thrown, or
  the text after all replacements for this key.
\<close>

definition syntax_chars :: "char list" where
  "syntax_chars = CHR 0x5C # ''^$.*+?()[]{}|''"

definition plain_key :: "string \<Rightarrow> bool" where
  "plain_key k \<longleftrightarrow> list_all (\<lambda>c. c \<notin> set syntax_chars) k"

type_synonym message = string

type_synonym regexp_runtime = "string \<Rightarrow> string \<Rightarrow> string \<Rightarrow> message + string"

definition literal :: "string \<Rightarrow> regex" where
  "literal s = map Chr s"

text \<open>\<^verbatim>\<open>new RegExp(`\\{\\{${key}\\}\\}`, 'g')\<close> and \<^verbatim>\<open>new RegExp(`\\{${key}\\}`, 'g')\<close>.\<close>

definition double_braces :: "string \<Rightarrow> regex" where
  "double_braces k = literal (''{{'' @ k @ ''}}'')"

definition single_braces :: "string \<Rightarrow> regex" where
  "single_braces k = literal (''{'' @ k @ ''}'')"

definition replace_key :: "string \<Rightarrow> string \<Rightarrow> string \<Rightarrow> string" where
  "replace_key k sv t = replace_all (single_braces k) sv (replace_all (double_braces k) sv t)"

text \<open>\<^verbatim>\<open>key.replace(/_/g, '-')\<close> and \<^verbatim>\<open>key.replace(/-/g, '_')\<close>.\<close>

definition hyphenKey :: "string \<Rightarrow> string" where
  "hyphenKey k = map (\<lambda>c. if c = CHR ''_'' then CHR ''-'' else c) k"

definition underscoreKey :: "string \<Rightarrow> string" where
  "underscoreKey k = map (\<lambda>c. if c = CHR ''-'' then CHR ''_'' else c) k"

text \<open>The body of the loop over \<^verbatim>\<open>Object.entries(variables)\<close>, for a plain key.\<close>

definition subst_plain :: "string \<Rightarrow> string \<Rightarrow> string \<Rightarrow> string" where
  "subst_plain k sv t =
     (let r1 = replace_key k sv t;
          r2 = (if hyphenKey k \<noteq> k then replace_key (hyphenKey k) sv r1 else r1)
      in if underscoreKey k \<noteq> k then replace_key (underscoreKey k) sv r2 else r2)"

definition subst_key :: "regexp_runtime \<Rightarrow> string \<Rightarrow> jsval \<Rightarrow> string \<Rightarrow> message + string" where
  "subst_key rt k v t =
     (if plain_key k then Inr (subst_plain k (stringValue v) t) else rt k (stringValue v) t)"

text \<open>
  The variables are given as the list \<^verbatim>\<open>Object.entries(variables)\<close> enumerates.
  Each key works on the text the keys before it have produced.
\<close>

fun fill_loop :: "regexp_runtime \<Rightarrow> (string \<times> jsval) list \<Rightarrow> string \<Rightarrow> message + string" where
  "fill_loop rt [] t = Inr t"
| "fill_loop rt ((k, v) # vars) t =
     (case subst_key rt k v t of
        Inl e \<Rightarrow> Inl e
      | Inr t' \<Rightarrow> fill_loop rt vars t')"

text \<open>The clean-up expressions \<^verbatim>\<open>/\{\{[\w-]+\}\}/g\<close> and \<^verbatim>\<open>/\{[\w-]+\}/g\<close>.\<close>

definition double_any :: regex where
  "double_any = [Chr CHR ''{'', Chr CHR ''{'', NamePlus, Chr CHR ''}'', Chr CHR ''}'']"

definition single_any :: regex where
  "single_any = [Chr CHR ''{'', NamePlus, Chr CHR ''}'']"

definition cleanup :: "string \<Rightarrow> string" where
  "cleanup r = replace_all single_any [] (replace_all double_any [] r)"

definition fillVariables :: "regexp_runtime \<Rightarrow> string \<Rightarrow> (string \<times> jsval) list \<Rightarrow> message + string" where
  "fillVariables rt template variables =
     (case fill_loop rt variables template of
        Inl e \<Rightarrow> Inl e
      | Inr r \<Rightarrow> Inr (cleanup r))"

text \<open>The placeholder shape \<^verbatim>\<open>\{\{?[\w-]+\}\}?\<close>.\<close>

definition placeholder_shape :: regex where
  "placeholder_shape = [Chr CHR ''{'', Opt CHR ''{'', NamePlus, Chr CHR ''}'', Opt CHR ''}'']"

text \<open>A runtime that rejects every key that is not plain; used at concrete inputs.\<close>

definition rejecting :: regexp_runtime where
  "rejecting k sv t = Inl ''Invalid regular expression''"

text \<open>A name: a non-empty run of the characters \<^verbatim>\<open>[\w-]\<close>.\<close>

definition is_name :: "string \<Rightarrow> bool" where
  "is_name k \<longleftrightarrow> k \<noteq> [] \<and> list_all is_name_char k"

text \<open>
  Substitution as the specification words it, to compare with the code: \<open>replace_literal
  pat v s\<close> replaces the occurrences of the text \<open>pat\<close> in \<open>s\<close>, from left to right and
  without overlap, by the text \<open>v\<close> as it is; \<open>literal_key_step\<close> does so for
  \<^verbatim>\<open>{{key}}\<close> and \<^verbatim>\<open>{key}\<close>, in the key's own spelling and then in its spellings
  with hyphens and with underscores; \<open>literal_fill\<close> takes the entries in their order,
  each on the text the entries before it produced. \<open>has_pattern v\<close>: the value holds
  one of the replacement patterns \<^verbatim>\<open>$$\<close>, \<^verbatim>\<open>$&\<close>, \<^verbatim>\<open>$`\<close>, \<^verbatim>\<open>$'\<close>.
\<close>

fun has_pattern :: "string \<Rightarrow> bool" where
  "has_pattern [] = False"
| "has_pattern [c] = False"
| "has_pattern (c # d # r) =
     ((c = CHR ''$'' \<and> d \<in> set [CHR ''$'', CHR ''&'', CHR 0x60, CHR 0x27]) \<or> has_pattern (d # r))"

fun replace_literal :: "string \<Rightarrow> string \<Rightarrow> string \<Rightarrow> string" where
  "replace_literal pat v [] = []"
| "replace_literal pat v (c # cs) =
     (if pat \<noteq> [] \<and> take (length pat) (c # cs) = pat
      then v @ replace_literal pat v (drop (length pat - 1) cs)
      else c # replace_literal pat v cs)"

definition literal_key :: "string \<Rightarrow> string \<Rightarrow> string \<Rightarrow> string" where
  "literal_key k v t =
     replace_literal (''{'' @ k @ ''}'') v (replace_literal (''{{'' @ k @ ''}}'') v t)"

definition literal_key_step :: "string \<Rightarrow> string \<Rightarrow> string \<Rightarrow> string" where
  "literal_key_step k v t =
     (let r1 = literal_key k v t;
          r2 = (if hyphenKey k \<noteq> k then literal_key (hyphenKey k) v r1 else r1)
      in if underscoreKey k \<noteq> k then literal_key (underscoreKey k) v r2 else r2)"

fun literal_fill :: "(string \<times> jsval) list \<Rightarrow> string \<Rightarrow> string" where
  "literal_fill [] t = t"
| "literal_fill ((k, v) # vars) t = literal_fill vars (literal_key_step k (stringValue v) t)"

section \<open>Prompt dialects: \<^verbatim>\<open>parseTextMarkerFormat\<close> and \<^verbatim>\<open>parseAndFillPrompt\<close>\<close>

text \<open>
  \<^verbatim>\<open>String.prototype.includes\<close>, \<^verbatim>\<open>startsWith\<close>, \<^verbatim>\<open>trim\<close>, \<^verbatim>\<open>toUpperCase\<close>
  and \<^verbatim>\<open>toLowerCase\<close> on ASCII text.
\<close>

definition startsWith :: "string \<Rightarrow> string \<Rightarrow> bool" where
  "startsWith s pat \<longleftrightarrow> take (length pat) s = pat"

fun js_includes :: "string \<Rightarrow> string \<Rightarrow> bool" where
  "js_includes [] pat = (pat = [])"
| "js_includes (c # cs) pat = (startsWith (c # cs) pat \<or> js_includes cs pat)"

definition is_space :: "char \<Rightarrow> bool" where
  "is_space c \<longleftrightarrow> c \<in> set [CHR '' '', CHR 0x09, CHR 0x0A, CHR 0x0B, CHR 0x0C, CHR 0x0D]"

definition trim :: "string \<Rightarrow> string" where
  "trim s = rev (dropWhile is_space (rev (dropWhile is_space s)))"

definition upper_char :: "char \<Rightarrow> char" where
  "upper_char c =
     (case map_of (zip ''abcdefghijklmnopqrstuvwxyz'' ''ABCDEFGHIJKLMNOPQRSTUVWXYZ'') c of
        Some u \<Rightarrow> u
      | None \<Rightarrow> c)"

definition lower_char :: "char \<Rightarrow> char" where
  "lower_char c =
     (case map_of (zip ''ABCDEFGHIJKLMNOPQRSTUVWXYZ'' ''abcdefghijklmnopqrstuvwxyz'') c of
        Some l \<Rightarrow> l
      | None \<Rightarrow> c)"

definition toUpperCase :: "string \<Rightarrow> string" where
  "toUpperCase s = map upper_char s"

definition toLowerCase :: "string \<Rightarrow> string" where
  "toLowerCase s = map lower_char s"

text \<open>
  JSON values, as \<^verbatim>\<open>JSON.parse\<close> and the trace store deliver them. A property
  that is not there reads as \<^verbatim>\<open>undefined\<close>: \<open>None\<close> in \<open>json option\<close>.
  \<open>JObj\<close> lists an object's properties, each key once.
\<close>

datatype json =
    JNull
  | JBool bool
  | JNum int
  | JStr string
  | JArr "json list"
  | JObj "(string \<times> json) list"

fun truthy :: "json option \<Rightarrow> bool" where
  "truthy None = False"
| "truthy (Some JNull) = False"
| "truthy (Some (JBool b)) = b"
| "truthy (Some (JNum n)) = (n \<noteq> 0)"
| "truthy (Some (JStr s)) = (s \<noteq> [])"
| "truthy (Some (JArr xs)) = True"
| "truthy (Some (JObj ps)) = True"

record ChatMessage =
  role :: "json option"
  content :: string

text \<open>
  \<^verbatim>\<open>text.split(/(\[SYSTEM\]|\[USER\]|\[ASSISTANT\])/i)\<close>: the expression has the
  flag \<^verbatim>\<open>i\<close>, and its capture group puts each marker, as written in the text,
  into the result between the pieces it separates. \<open>marker_at s\<close> is the length of the
  marker at the head of \<open>s\<close>; \<open>split_markers cur s\<close> scans \<open>s\<close> with \<open>cur\<close> the
  piece read so far.
\<close>

definition marker_at :: "string \<Rightarrow> nat option" where
  "marker_at s =
     (if startsWith (toUpperCase s) ''[SYSTEM]'' then Some 8
      else if startsWith (toUpperCase s) ''[USER]'' then Some 6
      else if startsWith (toUpperCase s) ''[ASSISTANT]'' then Some 11
      else None)"

fun split_markers :: "string \<Rightarrow> string \<Rightarrow> string list" where
  "split_markers cur [] = [cur]"
| "split_markers cur (c # cs) =
     (case marker_at (c # cs) of
        None \<Rightarrow> split_markers (cur @ [c]) cs
      | Some n \<Rightarrow> cur # take n (c # cs) # split_markers [] (drop (n - 1) cs))"

text \<open>The loop over the parts, with \<^verbatim>\<open>currentRole\<close> and \<^verbatim>\<open>messages\<close> as state.\<close>

fun collect_messages :: "string option \<Rightarrow> string list \<Rightarrow> ChatMessage list" where
  "collect_messages currentRole [] = []"
| "collect_messages currentRole (part # parts) =
     (let trimmed = trim part; upperPart = toUpperCase trimmed in
      if trimmed = [] then collect_messages currentRole parts
      else if upperPart = ''[SYSTEM]'' then collect_messages (Some ''system'') parts
      else if upperPart = ''[USER]'' then collect_messages (Some ''user'') parts
      else if upperPart = ''[ASSISTANT]'' then collect_messages (Some ''assistant'') parts
      else (case currentRole of
              Some r \<Rightarrow> \<lparr>role = Some (JStr r), content = trimmed\<rparr> # collect_messages currentRole parts
            | None \<Rightarrow> collect_messages currentRole parts))"

definition parseTextMarkerFormat :: "string \<Rightarrow> ChatMessage list option" where
  "parseTextMarkerFormat text_in =
     (let hasMarkers = js_includes text_in ''[SYSTEM]'' \<or> js_includes text_in ''[USER]''
                       \<or> js_includes text_in ''[ASSISTANT]'' in
      if \<not> hasMarkers then None
      else (let messages = collect_messages None (split_markers [] text_in) in
            if messages \<noteq> [] then Some messages else None))"

text \<open>
  \<^verbatim>\<open>parseAndFillPrompt\<close>. \<^verbatim>\<open>JSON.parse\<close> is the runtime's; the model takes it as
  the parameter \<open>parse\<close> (\<open>None\<close> when it throws). Everything inside the
  \<^verbatim>\<open>try\<close> block that throws (a message that is \<^verbatim>\<open>null\<close>, a content that is not a
  string, a key the runtime rejects) ends in the empty \<^verbatim>\<open>catch\<close>, and the function
  goes on to the other dialects: \<open>fill_parsed\<close> is \<open>None\<close> then.
\<close>

datatype promptFormat = json_format | text_markers | plain

datatype FilledPrompt = Messages "ChatMessage list" promptFormat | PlainText string

fun property :: "json \<Rightarrow> string \<Rightarrow> json option" where
  "property (JObj ps) k = map_of ps k"
| "property v k = None"

fun fill_message :: "regexp_runtime \<Rightarrow> (string \<times> jsval) list \<Rightarrow> json \<Rightarrow> ChatMessage option" where
  "fill_message rt variables JNull = None"
| "fill_message rt variables msg =
     (case property msg ''content'' of
        Some (JStr c) \<Rightarrow>
          (case fillVariables rt c variables of
             Inl e \<Rightarrow> None
           | Inr filled \<Rightarrow> Some \<lparr>role = property msg ''role'', content = filled\<rparr>)
      | _ \<Rightarrow> None)"

fun fill_all :: "('a \<Rightarrow> 'b option) \<Rightarrow> 'a list \<Rightarrow> 'b list option" where
  "fill_all f [] = Some []"
| "fill_all f (x # xs) =
     (case f x of
        None \<Rightarrow> None
      | Some y \<Rightarrow> (case fill_all f xs of None \<Rightarrow> None | Some ys \<Rightarrow> Some (y # ys)))"

fun fill_parsed :: "regexp_runtime \<Rightarrow> (string \<times> jsval) list \<Rightarrow> json option \<Rightarrow> ChatMessage list option" where
  "fill_parsed rt variables (Some (JArr (JNull # rest))) = None"
| "fill_parsed rt variables (Some (JArr (first # rest))) =
     (if truthy (property first ''role'')
         \<and> (case property first ''content'' of Some (JStr c) \<Rightarrow> True | _ \<Rightarrow> False)
      then fill_all (fill_message rt variables) (first # rest)
      else None)"
| "fill_parsed rt variables parsed = None"

fun fill_contents :: "regexp_runtime \<Rightarrow> (string \<times> jsval) list \<Rightarrow> ChatMessage list \<Rightarrow> message + ChatMessage list" where
  "fill_contents rt variables [] = Inr []"
| "fill_contents rt variables (msg # msgs) =
     (case fillVariables rt (content msg) variables of
        Inl e \<Rightarrow> Inl e
      | Inr filled \<Rightarrow>
          (case fill_contents rt variables msgs of
             Inl e \<Rightarrow> Inl e
           | Inr rest \<Rightarrow> Inr (\<lparr>role = role msg, content = filled\<rparr> # rest)))"

definition parseAndFillPrompt ::
  "regexp_runtime \<Rightarrow> (string \<Rightarrow> json option) \<Rightarrow> string \<Rightarrow> (string \<times> jsval) list \<Rightarrow> message + FilledPrompt" where
  "parseAndFillPrompt rt parse draftPrompt variables =
     (case (if startsWith (trim draftPrompt) ''['' then fill_parsed rt variables (parse draftPrompt)
            else None) of
        Some filledMessages \<Rightarrow> Inr (Messages filledMessages json_format)
      | None \<Rightarrow>
          (case parseTextMarkerFormat draftPrompt of
             Some textMarkerMessages \<Rightarrow>
               (case fill_contents rt variables textMarkerMessages of
                  Inl e \<Rightarrow> Inl e
                | Inr filledMessages \<Rightarrow> Inr (Messages filledMessages text_markers))
           | None \<Rightarrow>
               (case fillVariables rt draftPrompt variables of
                  Inl e \<Rightarrow> Inl e
                | Inr filled \<Rightarrow> Inr (PlainText filled))))"

section \<open>Schema translation: \<^verbatim>\<open>zodToGeminiSchema\<close>\<close>

text \<open>
  A Zod schema is a tree tagged by \<^verbatim>\<open>_def.typeName\<close>. The translator reads the
  value of a literal only through \<^verbatim>\<open>typeof\<close> (\<open>LOther\<close>: a literal that is
  neither a string, a number nor a boolean), the checks of a string only through
  \<^verbatim>\<open>check.kind === 'regex'\<close>, and the description of a schema only where it is
  the field of an object: an object's shape lists each field with its schema and that
  schema's \<^verbatim>\<open>_def.description\<close>. \<open>ZodUnknown\<close> is any other type name.
\<close>

datatype literal = LString string | LNumber int | LBoolean bool | LOther

datatype check = RegexCheck | OtherCheck

datatype zod =
    ZodString "check list"
  | ZodNumber
  | ZodBoolean
  | ZodArray zod
  | ZodObject "(string \<times> zod \<times> string option) list"
  | ZodEnum "string list"
  | ZodOptional zod
  | ZodNullable zod
  | ZodDefault zod
  | ZodEffects zod
  | ZodLiteral literal
  | ZodUnion "zod list"
  | ZodUnknown string

text \<open>Gemini's \<^verbatim>\<open>Schema\<close>; a field that is not set is \<open>None\<close>.\<close>

datatype gtype = STRING | NUMBER | BOOLEAN | ARRAY | OBJECT

datatype schema = Schema
  (s_type: gtype)
  (s_items: "schema option")
  (s_properties: "(string \<times> schema) list option")
  (s_required: "string list option")
  (s_enum: "string list option")
  (s_nullable: "bool option")
  (s_description: "string option")

definition of_type :: "gtype \<Rightarrow> schema" where
  "of_type t = Schema t None None None None None None"

fun set_nullable :: "schema \<Rightarrow> schema" where
  "set_nullable (Schema t i p r e n d) = Schema t i p r e (Some True) d"

fun set_description :: "string \<Rightarrow> schema \<Rightarrow> schema" where
  "set_description x (Schema t i p r e n d) = Schema t i p r e n (Some x)"

fun set_enum :: "string list \<Rightarrow> schema \<Rightarrow> schema" where
  "set_enum vs (Schema t i p r e n d) = Schema t i p r (Some vs) n d"

fun handleZodString :: "check list \<Rightarrow> schema" where
  "handleZodString [] = of_type STRING"
| "handleZodString (c # checks) =
     (if c = RegexCheck then of_type STRING else handleZodString checks)"

fun string_literal :: "zod \<Rightarrow> string option" where
  "string_literal (ZodLiteral (LString s)) = Some s"
| "string_literal z = None"

text \<open>
  \<^verbatim>\<open>isOptional()\<close> is Zod's own method; the model takes it as the parameter
  \<open>isOptional\<close>. The case of \<open>ZodObject\<close> is \<^verbatim>\<open>handleZodObject\<close>, which calls
  \<^verbatim>\<open>convertZodType\<close> on every field.
\<close>

fun convertZodType :: "(zod \<Rightarrow> bool) \<Rightarrow> zod \<Rightarrow> schema" where
  "convertZodType isOptional (ZodString checks) = handleZodString checks"
| "convertZodType isOptional ZodNumber = of_type NUMBER"
| "convertZodType isOptional ZodBoolean = of_type BOOLEAN"
| "convertZodType isOptional (ZodArray t) =
     Schema ARRAY (Some (convertZodType isOptional t)) None None None None None"
| "convertZodType isOptional (ZodObject shape) =
     (let properties = map (\<lambda>(key, zodValue, description).
            (key, (case description of
                     None \<Rightarrow> convertZodType isOptional zodValue
                   | Some d \<Rightarrow> if d = [] then convertZodType isOptional zodValue
                              else set_description d (convertZodType isOptional zodValue)))) shape;
          required = map fst (filter (\<lambda>(key, zodValue, description). \<not> isOptional zodValue) shape)
      in Schema OBJECT None (Some properties) (if required \<noteq> [] then Some required else None)
           None None None)"
| "convertZodType isOptional (ZodEnum enumValues) = set_enum enumValues (of_type STRING)"
| "convertZodType isOptional (ZodOptional innerType) = convertZodType isOptional innerType"
| "convertZodType isOptional (ZodNullable innerType) =
     set_nullable (convertZodType isOptional innerType)"
| "convertZodType isOptional (ZodDefault innerType) = convertZodType isOptional innerType"
| "convertZodType isOptional (ZodEffects inner) = convertZodType isOptional inner"
| "convertZodType isOptional (ZodLiteral literalValue) =
     (case literalValue of
        LString s \<Rightarrow> set_enum [s] (of_type STRING)
      | LNumber n \<Rightarrow> of_type NUMBER
      | LBoolean b \<Rightarrow> of_type BOOLEAN
      | LOther \<Rightarrow> of_type STRING)"
| "convertZodType isOptional (ZodUnion unionTypes) =
     (if list_all (\<lambda>t. string_literal t \<noteq> None) unionTypes
      then set_enum (map (\<lambda>t. the (string_literal t)) unionTypes) (of_type STRING)
      else (case unionTypes of
              first # others \<Rightarrow> convertZodType isOptional first
            | [] \<Rightarrow> of_type STRING))"
| "convertZodType isOptional (ZodUnknown typeName) = of_type STRING"

definition zodToGeminiSchema :: "(zod \<Rightarrow> bool) \<Rightarrow> zod \<Rightarrow> schema" where
  "zodToGeminiSchema isOptional zodSchema = convertZodType isOptional zodSchema"

text \<open>An \<open>isOptional\<close> under which every field is required; used at concrete inputs.\<close>

definition never_optional :: "zod \<Rightarrow> bool" where
  "never_optional z = False"

section \<open>Observation matching: \<^verbatim>\<open>findMatchingObservation\<close>\<close>

text \<open>
  An observation, as far as matching reads it: its \<^verbatim>\<open>name\<close>, and the fields
  \<^verbatim>\<open>metadata?.['function-name']\<close> and \<^verbatim>\<open>metadata?.promptName\<close> (\<open>None\<close> when the
  field or the metadata is not there). The fields are JSON values of any type: calling
  \<^verbatim>\<open>toLowerCase\<close> or \<^verbatim>\<open>includes\<close> on a value that has no such method throws a
  TypeError, which is \<open>Inl\<close> here.
\<close>

record observation =
  obs_id :: string
  obs_name :: "json option"
  function_name :: "json option"
  meta_promptName :: "json option"
  obs_output :: "json option"

definition strip_hyphens :: "string \<Rightarrow> string" where
  "strip_hyphens s = filter (\<lambda>c. c \<noteq> CHR ''-'') s"

text \<open>\<^verbatim>\<open>originalPromptName.split('/').pop() || originalPromptName\<close>.\<close>

definition promptBaseName :: "string \<Rightarrow> string" where
  "promptBaseName p =
     (let l = rev (takeWhile (\<lambda>c. c \<noteq> CHR ''/'') (rev p)) in if l = [] then p else l)"

definition promptNormalized :: "string \<Rightarrow> string" where
  "promptNormalized p = strip_hyphens (toLowerCase (promptBaseName p))"

text \<open>\<^verbatim>\<open>Array.prototype.find\<close> with a callback that can throw.\<close>

fun find_first :: "('a \<Rightarrow> message + bool) \<Rightarrow> 'a list \<Rightarrow> message + 'a option" where
  "find_first f [] = Inr None"
| "find_first f (x # xs) =
     (case f x of
        Inl e \<Rightarrow> Inl e
      | Inr b \<Rightarrow> if b then Inr (Some x) else find_first f xs)"

definition exact_match :: "string \<Rightarrow> observation \<Rightarrow> message + bool" where
  "exact_match p obs = Inr (obs_name obs = Some (JStr p))"

definition normalized_match :: "string \<Rightarrow> observation \<Rightarrow> message + bool" where
  "normalized_match p obs =
     (if \<not> truthy (obs_name obs) then Inr False
      else (case obs_name obs of
              Some (JStr n) \<Rightarrow> Inr (js_includes (strip_hyphens (toLowerCase n)) (promptNormalized p))
            | _ \<Rightarrow> Inl ''obs.name.toLowerCase is not a function''))"

definition function_name_match :: "string \<Rightarrow> observation \<Rightarrow> message + bool" where
  "function_name_match p obs =
     (if \<not> truthy (function_name obs) then Inr False
      else (case function_name obs of
              Some (JStr f) \<Rightarrow>
                (let funcNormalized = strip_hyphens (toLowerCase f) in
                 Inr (js_includes funcNormalized (promptNormalized p)
                      \<or> js_includes (promptNormalized p) funcNormalized))
            | _ \<Rightarrow> Inl ''funcName.toLowerCase is not a function''))"

definition metadata_match :: "string \<Rightarrow> observation \<Rightarrow> message + bool" where
  "metadata_match p obs =
     (case meta_promptName obs of
        None \<Rightarrow> Inr False
      | Some JNull \<Rightarrow> Inr False
      | Some (JStr n) \<Rightarrow> Inr (n = p \<or> js_includes n (promptBaseName p))
      | Some (JArr xs) \<Rightarrow> Inr (JStr (promptBaseName p) \<in> set xs)
      | Some v \<Rightarrow> Inl ''obs.metadata?.promptName?.includes is not a function'')"

fun first_of :: "'a list \<Rightarrow> 'a option" where
  "first_of [] = None"
| "first_of (x # xs) = Some x"

fun or_else :: "message + 'a option \<Rightarrow> message + 'a option \<Rightarrow> message + 'a option" where
  "or_else (Inl e) next_try = Inl e"
| "or_else (Inr (Some x)) next_try = Inr (Some x)"
| "or_else (Inr None) next_try = next_try"

text \<open>
  \<open>originalPromptName\<close> is \<open>None\<close> when the caller gives no name; the guard
  \<^verbatim>\<open>!originalPromptName\<close> also holds for the empty string.
\<close>

definition findMatchingObservation ::
  "string option \<Rightarrow> observation list \<Rightarrow> message + observation option" where
  "findMatchingObservation originalPromptName observations =
     (case originalPromptName of
        None \<Rightarrow> Inr (first_of observations)
      | Some p \<Rightarrow>
          if p = [] \<or> observations = [] then Inr (first_of observations)
          else or_else (find_first (exact_match p) observations)
              (or_else (find_first (normalized_match p) observations)
              (or_else (find_first (function_name_match p) observations)
              (or_else (find_first (metadata_match p) observations)
              (Inr (first_of observations))))))"

section \<open>One evaluation: \<^verbatim>\<open>runSingleEval\<close>\<close>

text \<open>
  The collaborators are the environment of the model. For one call of
  \<^verbatim>\<open>runSingleEval\<close> a \<open>trace_world\<close> says what they do: the two readings of
  \<^verbatim>\<open>Date.now()\<close> (on entry, and where the latency is computed), what
  \<^verbatim>\<open>fetchTraceWithVariables\<close> resolves to (\<open>None\<close> for \<^verbatim>\<open>null\<close>; it catches
  its own errors), and what the call of the provider's adapter gives, together with
  the conversion of the schema and the tools before it and the extraction of the
  response after it: the message of the error thrown, or the output text with the rest
  of what is extracted (parsed output, token usage, tool calls: the type \<open>'x\<close>).
  The model name, the trace id of the run, the schema, the tools and the reasoning
  options only travel to the adapter.
\<close>

datatype ModelProvider = openai | gemini

record trace_data =
  td_variables :: "(string \<times> jsval) list"
  td_originalOutput :: "string option"
  td_source :: string
  td_schema :: bool
  td_tools :: bool

record 'x trace_world =
  startTime :: int
  resolved :: "trace_data option"
  call_openai :: "ChatMessage list \<Rightarrow> message + (string option \<times> 'x)"
  call_gemini :: "string \<Rightarrow> message + (string option \<times> 'x)"
  endTime :: int

record 'x TraceEvalResult =
  traceId :: string
  success :: bool
  "input" :: "(string \<times> jsval) list option"
  "output" :: "string option"
  originalProductionOutput :: "string option"
  extracted :: "'x option"
  error :: "message option"
  latencyMs :: "int option"
  variableSource :: "string option"
  promptFormat :: "promptFormat option"
  schemaKey :: "string option"
  toolGroupKey :: "string option"

text \<open>
  \<^verbatim>\<open>options.originalOutput\<close>: not given or falsy, a string, or another value given
  by its \<^verbatim>\<open>JSON.stringify\<close> text.
\<close>

datatype provided = NotProvided | ProvidedString string | ProvidedValue string

fun production_output :: "provided \<Rightarrow> string option \<Rightarrow> string option" where
  "production_output NotProvided fetched = fetched"
| "production_output (ProvidedString s) fetched = (if s = [] then fetched else Some s)"
| "production_output (ProvidedValue s) fetched = Some s"

text \<open>\<^verbatim>\<open>originalProductionOutput || undefined\<close>.\<close>

fun or_undefined :: "string option \<Rightarrow> string option" where
  "or_undefined None = None"
| "or_undefined (Some s) = (if s = [] then None else Some s)"

text \<open>
  The prompt for Gemini:
  \<^verbatim>\<open>messages.map((m) => `[${m.role.toUpperCase()}]\n${m.content}`).join('\n\n')\<close>.
\<close>

fun gemini_blocks :: "ChatMessage list \<Rightarrow> message + string list" where
  "gemini_blocks [] = Inr []"
| "gemini_blocks (m # ms) =
     (case role m of
        Some (JStr r) \<Rightarrow>
          (case gemini_blocks ms of
             Inl e \<Rightarrow> Inl e
           | Inr bs \<Rightarrow> Inr ((''['' @ toUpperCase r @ '']'' @ [CHR 0x0A] @ content m) # bs))
      | None \<Rightarrow>
          Inl (''Cannot read properties of undefined (reading '' @ [CHR 0x27]
               @ ''toUpperCase'' @ [CHR 0x27] @ '')'')
      | Some JNull \<Rightarrow>
          Inl (''Cannot read properties of null (reading '' @ [CHR 0x27]
               @ ''toUpperCase'' @ [CHR 0x27] @ '')'')
      | _ \<Rightarrow> Inl ''m.role.toUpperCase is not a function'')"

fun join :: "string \<Rightarrow> string list \<Rightarrow> string" where
  "join sep [] = []"
| "join sep [x] = x"
| "join sep (x # y # ys) = x @ sep @ join sep (y # ys)"

definition call_provider ::
  "'x trace_world \<Rightarrow> ModelProvider \<Rightarrow> FilledPrompt \<Rightarrow> message + (string option \<times> 'x)" where
  "call_provider w prov filledPrompt =
     (case prov of
        openai \<Rightarrow>
          call_openai w (case filledPrompt of
                           Messages messages fmt \<Rightarrow> messages
                         | PlainText t \<Rightarrow> [\<lparr>role = Some (JStr ''user''), content = t\<rparr>])
      | gemini \<Rightarrow>
          (case filledPrompt of
             Messages messages fmt \<Rightarrow>
               (case gemini_blocks messages of
                  Inl e \<Rightarrow> Inl e
                | Inr bs \<Rightarrow> call_gemini w (join [CHR 0x0A, CHR 0x0A] bs))
           | PlainText t \<Rightarrow> call_gemini w t))"

fun format_of :: "FilledPrompt \<Rightarrow> promptFormat" where
  "format_of (Messages messages fmt) = fmt"
| "format_of (PlainText t) = plain"

definition not_found_message :: message where
  "not_found_message =
     ''No promptVariables found in trace metadata. Ensure generations log promptVariables in their metadata.''"

definition runSingleEval ::
  "regexp_runtime \<Rightarrow> (string \<Rightarrow> json option) \<Rightarrow> 'x trace_world \<Rightarrow> string \<Rightarrow> string
     \<Rightarrow> ModelProvider \<Rightarrow> provided \<Rightarrow> 'x TraceEvalResult" where
  "runSingleEval rt parse w prompt tid prov given =
     (case resolved w of
        None \<Rightarrow>
          \<lparr>traceId = tid, success = False, input = None, output = None,
           originalProductionOutput = None, extracted = None,
           error = Some not_found_message, latencyMs = None, variableSource = None,
           promptFormat = None, schemaKey = None, toolGroupKey = None\<rparr>
      | Some traceData \<Rightarrow>
          (case (case parseAndFillPrompt rt parse prompt (td_variables traceData) of
                   Inl e \<Rightarrow> Inl e
                 | Inr filledPrompt \<Rightarrow>
                     (case call_provider w prov filledPrompt of
                        Inl e \<Rightarrow> Inl e
                      | Inr (out, rest) \<Rightarrow> Inr (format_of filledPrompt, out, rest))) of
             Inr (fmt, out, rest) \<Rightarrow>
               \<lparr>traceId = tid, success = True, input = Some (td_variables traceData),
                output = out,
                originalProductionOutput =
                  or_undefined (production_output given (td_originalOutput traceData)),
                extracted = Some rest, error = None,
                latencyMs = Some (endTime w - startTime w),
                variableSource = Some (td_source traceData), promptFormat = Some fmt,
                schemaKey = (if td_schema traceData then Some ''from-observation-metadata'' else None),
                toolGroupKey = (if td_tools traceData then Some ''from-observation-metadata'' else None)\<rparr>
           | Inl e \<Rightarrow>
               \<lparr>traceId = tid, success = False, input = None, output = None,
                originalProductionOutput = None, extracted = None,
                error = Some e, latencyMs = Some (endTime w - startTime w),
                variableSource = None, promptFormat = None, schemaKey = None,
                toolGroupKey = None\<rparr>))"

section \<open>The run: \<^verbatim>\<open>runTracesEvalFunction\<close>\<close>

record TraceObservationPair =
  pair_traceId :: string
  observationId :: string
  pair_output :: provided

record EvalRunInput =
  draftPrompt :: string
  traceIds :: "string list"
  traceObservationPairs :: "TraceObservationPair list option"
  provider :: ModelProvider
  input_evalName :: string
  concurrency :: "int option"

record 'x EvalRunResult =
  evalId :: string
  evalName :: string
  totalTraces :: nat
  successCount :: nat
  failureCount :: nat
  results :: "'x TraceEvalResult list"
  startedAt :: int
  completedAt :: int
  durationMs :: int
  resultsUrl :: "string option"

text \<open>
  The environment of a run: the runtime (regular expressions outside the literal
  fragment, \<^verbatim>\<open>JSON.parse\<close>), the world of each call of \<^verbatim>\<open>runSingleEval\<close> (the
  calls of a run are counted from 0 in the order they are made), \<^verbatim>\<open>uuidv4()\<close>, the
  clock (in milliseconds), and what the three other steps do: \<open>Some e\<close>, or \<open>Inl e\<close>,
  when the step throws.
\<close>

record 'x env =
  env_regexp :: regexp_runtime
  env_parse :: "string \<Rightarrow> json option"
  env_world :: "nat \<Rightarrow> 'x trace_world"
  env_uuid :: string
  env_startedAt :: int
  env_completedAt :: int
  env_create_trace :: "message option"
  env_store_blob :: "message + string"
  env_update_trace :: "message option"

text \<open>
  \<^verbatim>\<open>concurrency = 10\<close> in the destructuring: the default when the field is not set.
  The limit is an integer in the model; it can be zero or negative.
\<close>

definition limit :: "EvalRunInput \<Rightarrow> int" where
  "limit inp = (case concurrency inp of None \<Rightarrow> 10 | Some c \<Rightarrow> c)"

text \<open>
  \<^verbatim>\<open>observationLookup.get(traceId)?.output\<close>: the map is filled pair by pair, so the
  last pair of a trace id is the one found.
\<close>

definition lookup_output :: "TraceObservationPair list option \<Rightarrow> string \<Rightarrow> provided" where
  "lookup_output pairs tid =
     (case pairs of
        None \<Rightarrow> NotProvided
      | Some ps \<Rightarrow>
          (case find (\<lambda>p. pair_traceId p = tid) (rev ps) of
             None \<Rightarrow> NotProvided
           | Some p \<Rightarrow> pair_output p))"

text \<open>
  \<^verbatim>\<open>Array.prototype.slice(a, b)\<close> for integers: a negative index counts from the
  end, and both are clamped to the array.
\<close>

definition slice :: "'a list \<Rightarrow> int \<Rightarrow> int \<Rightarrow> 'a list" where
  "slice xs a b =
     (let n = int (length xs);
          lo = (if a < 0 then max (n + a) 0 else min a n);
          hi = (if b < 0 then max (n + b) 0 else min b n)
      in take (nat (hi - lo)) (drop (nat lo) xs))"

text \<open>
  What a run does, in the order it does it: the \<^verbatim>\<open>logger.info\<close> call at the head of
  a batch (batch number, batch size, progress), each call of \<^verbatim>\<open>runSingleEval\<close> that
  \<^verbatim>\<open>batch.map\<close> makes (batch number, number of the call, trace id), and
  \<^verbatim>\<open>allResults.push(...batchResults)\<close> after \<^verbatim>\<open>await Promise.all\<close> (batch number,
  the trace ids of the results pushed). The batch number is
  \<^verbatim>\<open>Math.floor(i / concurrency) + 1\<close>, not a number when the limit is 0.
\<close>

datatype event =
    BatchLogged "int option" nat int
  | EvalStarted "int option" nat string
  | BatchCollected "int option" "string list"

definition batch_number :: "int \<Rightarrow> int \<Rightarrow> int option" where
  "batch_number i c = (if c = 0 then None else Some (i div c + 1))"

definition run_batch :: "'x env \<Rightarrow> EvalRunInput \<Rightarrow> nat \<Rightarrow> string list \<Rightarrow> 'x TraceEvalResult list" where
  "run_batch E inp base batch =
     map (\<lambda>(j, tid).
            runSingleEval (env_regexp E) (env_parse E) (env_world E j) (draftPrompt inp) tid
              (provider inp) (lookup_output (traceObservationPairs inp) tid))
         (enumerate base batch)"

text \<open>The body of the loop \<^verbatim>\<open>for (let i = 0; i < traceIds.length; i += concurrency)\<close>.\<close>

definition batch_step ::
  "'x env \<Rightarrow> EvalRunInput \<Rightarrow> int \<Rightarrow> int \<Rightarrow> 'x TraceEvalResult list \<times> event list
     \<Rightarrow> 'x TraceEvalResult list \<times> event list" where
  "batch_step E inp c i st =
     (case st of (allResults, log) \<Rightarrow>
        (let batch = slice (traceIds inp) i (i + c);
             no = batch_number i c;
             batchResults = run_batch E inp (length allResults) batch
         in (allResults @ batchResults,
             log @ BatchLogged no (length batch) i
                 # map (\<lambda>(j, tid). EvalStarted no j tid) (enumerate (length allResults) batch)
                 @ [BatchCollected no (map traceId batchResults)])))"

partial_function (option) batch_loop ::
  "'x env \<Rightarrow> EvalRunInput \<Rightarrow> int \<Rightarrow> int \<Rightarrow> 'x TraceEvalResult list \<times> event list
     \<Rightarrow> ('x TraceEvalResult list \<times> event list) option" where
  "batch_loop E inp c i st =
     (if i < int (length (traceIds inp))
      then batch_loop E inp c (i + c) (batch_step E inp c i st)
      else Some st)"

text \<open>The step \<^verbatim>\<open>run-evaluations\<close>: \<open>None\<close> when the loop never ends.\<close>

definition run_evaluations ::
  "'x env \<Rightarrow> EvalRunInput \<Rightarrow> ('x TraceEvalResult list \<times> event list) option" where
  "run_evaluations E inp = batch_loop E inp (limit inp) 0 ([], [])"

text \<open>
  The whole function: \<open>None\<close> when it never returns, \<open>Some (Inl e)\<close> when a step
  throws, \<open>Some (Inr r)\<close> when it returns \<open>r\<close>.
\<close>

definition summary :: "'x env \<Rightarrow> EvalRunInput \<Rightarrow> 'x TraceEvalResult list \<Rightarrow> 'x EvalRunResult" where
  "summary E inp rs =
     \<lparr>evalId = env_uuid E, evalName = input_evalName inp,
      totalTraces = length (traceIds inp),
      successCount = length (filter (\<lambda>r. success r) rs),
      failureCount = length (filter (\<lambda>r. \<not> success r) rs),
      results = rs, startedAt = env_startedAt E, completedAt = env_completedAt E,
      durationMs = env_completedAt E - env_startedAt E, resultsUrl = None\<rparr>"

definition runTracesEvalFunction ::
  "'x env \<Rightarrow> EvalRunInput \<Rightarrow> (message + 'x EvalRunResult) option" where
  "runTracesEvalFunction E inp =
     (case env_create_trace E of
        Some e \<Rightarrow> Some (Inl e)
      | None \<Rightarrow>
          (case run_evaluations E inp of
             None \<Rightarrow> None
           | Some (rs, log) \<Rightarrow>
               (case env_store_blob E of
                  Inl e \<Rightarrow> Some (Inl e)
                | Inr url \<Rightarrow>
                    (case env_update_trace E of
                       Some e \<Rightarrow> Some (Inl e)
                     | None \<Rightarrow> Some (Inr ((summary E inp rs)\<lparr>resultsUrl := Some url\<rparr>))))))"

text \<open>
  The batches in closed form: \<open>batch_count n c\<close> is the number of batches for \<open>n\<close>
  trace ids under the limit \<open>c\<close> (\<open>n / c\<close> rounded up), \<open>batch_slice xs c k\<close> is the
  batch number \<open>k\<close>, counted from 0, and \<open>batch_events inp c k\<close> is what that batch
  adds to the record of the run. \<open>collected\<close> and \<open>started\<close> read the record of a
  run: the batches pushed, in order, and the calls of a batch.
\<close>

definition batch_count :: "nat \<Rightarrow> nat \<Rightarrow> nat" where
  "batch_count n c = (n + c - 1) div c"

definition batch_slice :: "'a list \<Rightarrow> nat \<Rightarrow> nat \<Rightarrow> 'a list" where
  "batch_slice xs c k = take c (drop (k * c) xs)"

definition batch_events :: "EvalRunInput \<Rightarrow> nat \<Rightarrow> nat \<Rightarrow> event list" where
  "batch_events inp c k =
     (let b = batch_slice (traceIds inp) c k; no = Some (int k + 1)
      in BatchLogged no (length b) (int (k * c))
         # map (\<lambda>(j, tid). EvalStarted no j tid) (enumerate (k * c) b)
         @ [BatchCollected no b])"

fun collected :: "event list \<Rightarrow> (int option \<times> string list) list" where
  "collected [] = []"
| "collected (BatchCollected no ids # es) = (no, ids) # collected es"
| "collected (e # es) = collected es"

fun started :: "int option \<Rightarrow> event list \<Rightarrow> string list" where
  "started no [] = []"
| "started no (EvalStarted no' j tid # es) =
     (if no' = no then tid # started no es else started no es)"
| "started no (e # es) = started no es"

text \<open>
  The place of an event in the course of a run that numbers its batches: batch by
  batch, and within a batch the log line, then the calls, then the push.
\<close>

fun event_rank :: "event \<Rightarrow> int" where
  "event_rank (BatchLogged (Some n) len i) = 3 * n"
| "event_rank (EvalStarted (Some n) j tid) = 3 * n + 1"
| "event_rank (BatchCollected (Some n) ids) = 3 * n + 2"
| "event_rank e = 0"

text \<open>
  A concrete environment and concrete inputs, used at concrete inputs: the calls 0, 4, 8,
  ... succeed, the calls 2, 6, ... reach the provider, which throws, and the calls with
  an odd number find no variables.
\<close>

definition sample_world :: "nat \<Rightarrow> unit trace_world" where
  "sample_world j =
     \<lparr>startTime = 100,
      resolved = (if even j
                  then Some \<lparr>td_variables = [(''name'', Str ''Ada'')], td_originalOutput = Some ''Hi'',
                              td_source = ''trace:metadata'', td_schema = False, td_tools = False\<rparr>
                  else None),
      call_openai = (\<lambda>ms. if j mod 4 = 0 then Inr (Some ''Hello!'', ()) else Inl ''rate limited''),
      call_gemini = (\<lambda>p. Inl ''rate limited''),
      endTime = 100 + int j\<rparr>"

definition sample_env :: "unit env" where
  "sample_env =
     \<lparr>env_regexp = rejecting, env_parse = (\<lambda>s. None), env_world = sample_world,
      env_uuid = ''run-1'', env_startedAt = 0, env_completedAt = 9,
      env_create_trace = None, env_store_blob = Inr ''blob://run-1'',
      env_update_trace = None\<rparr>"

definition sample_run :: "nat \<Rightarrow> EvalRunInput" where
  "sample_run n =
     \<lparr>draftPrompt = ''Hello {{name}}!'',
      traceIds = map (\<lambda>i. ''trace-'' @ [char_of (65 + i)]) [0..<n],
      traceObservationPairs = None, provider = openai, input_evalName = ''sample'',
      concurrency = None\<rparr>"

section \<open>Properties of template filling\<close>

lemma replace_from_no_match:
  "\<not> contains_match p s \<Longrightarrow> replace_from p repl pre s = s"
  by (induction s arbitrary: pre) auto

lemma replace_all_no_match:
  "\<not> contains_match p s \<Longrightarrow> replace_all p repl s = s"
  by (simp add: replace_all_def replace_from_no_match)

lemma fill_loop_append:
  "fill_loop rt (V1 @ V2) t =
     (case fill_loop rt V1 t of Inl e \<Rightarrow> Inl e | Inr t' \<Rightarrow> fill_loop rt V2 t')"
  by (induction V1 arbitrary: t) (auto split: sum.splits)

lemma first_some_eq_None: "first_some xs = None \<longleftrightarrow> (\<forall>x \<in> set xs. x = None)"
  by (induction xs rule: first_some.induct) auto

lemma match_here_literal:
  "match_here (literal s) t = (if take (length s) t = s then Some (length s) else None)"
  by (induction s arbitrary: t) (auto simp: literal_def split: list.splits)


lemma match_Chr_iff:
  "match_here (Chr c # p) s \<noteq> None \<longleftrightarrow> (\<exists>xs. s = c # xs \<and> match_here p xs \<noteq> None)"
  by (cases s) auto

lemma match_Opt_iff:
  "match_here (Opt c # p) s \<noteq> None \<longleftrightarrow>
     (\<exists>xs. s = c # xs \<and> match_here p xs \<noteq> None) \<or> match_here p s \<noteq> None"
  by (cases s) (auto split: option.splits)

lemma match_NamePlus_iff:
  "match_here (NamePlus # p) s \<noteq> None \<longleftrightarrow>
     (\<exists>i. 1 \<le> i \<and> i \<le> length (takeWhile is_name_char s) \<and> match_here p (drop i s) \<noteq> None)"
proof -
  have "match_here (NamePlus # p) s \<noteq> None \<longleftrightarrow>
      (\<exists>i \<in> set (rev [1..<Suc (length (takeWhile is_name_char s))]).
         map_option ((+) i) (match_here p (drop i s)) \<noteq> None)"
    by (simp add: first_some_eq_None del: upt_Suc)
  also have "\<dots> \<longleftrightarrow> (\<exists>i. 1 \<le> i \<and> i \<le> length (takeWhile is_name_char s) \<and>
      match_here p (drop i s) \<noteq> None)"
    by (auto simp del: upt_Suc simp: less_Suc_eq_le)
  finally show ?thesis .
qed

lemma single_any_shape:
  assumes "match_here single_any t \<noteq> None"
  shows "match_here placeholder_shape t \<noteq> None"
proof -
  from assms obtain u i where t: "t = CHR ''{'' # u"
    and i: "1 \<le> i" "i \<le> length (takeWhile is_name_char u)"
    and m: "match_here [Chr CHR ''}''] (drop i u) \<noteq> None"
    unfolding single_any_def match_Chr_iff match_NamePlus_iff by blast
  from m have "match_here [Chr CHR ''}'', Opt CHR ''}''] (drop i u) \<noteq> None"
    unfolding match_Chr_iff match_Opt_iff by auto
  with i have "match_here [NamePlus, Chr CHR ''}'', Opt CHR ''}''] u \<noteq> None"
    unfolding match_NamePlus_iff by blast
  then have "match_here [Opt CHR ''{'', NamePlus, Chr CHR ''}'', Opt CHR ''}''] u \<noteq> None"
    unfolding match_Opt_iff by blast
  with t show ?thesis
    unfolding placeholder_shape_def match_Chr_iff by blast
qed

lemma double_any_shape:
  assumes "match_here double_any t \<noteq> None"
  shows "match_here placeholder_shape t \<noteq> None"
proof -
  from assms obtain u i where t: "t = CHR ''{'' # CHR ''{'' # u"
    and i: "1 \<le> i" "i \<le> length (takeWhile is_name_char u)"
    and m: "match_here [Chr CHR ''}'', Chr CHR ''}''] (drop i u) \<noteq> None"
    unfolding double_any_def match_Chr_iff match_NamePlus_iff by blast
  from m have "match_here [Chr CHR ''}'', Opt CHR ''}''] (drop i u) \<noteq> None"
    unfolding match_Chr_iff match_Opt_iff by auto
  with i have "match_here [NamePlus, Chr CHR ''}'', Opt CHR ''}''] u \<noteq> None"
    unfolding match_NamePlus_iff by blast
  then have "match_here [Opt CHR ''{'', NamePlus, Chr CHR ''}'', Opt CHR ''}''] (CHR ''{'' # u) \<noteq> None"
    unfolding match_Opt_iff by blast
  with t show ?thesis
    unfolding placeholder_shape_def match_Chr_iff by blast
qed

lemma contains_match_mono:
  "(\<And>t. match_here p t \<noteq> None \<Longrightarrow> match_here q t \<noteq> None) \<Longrightarrow>
     contains_match p s \<Longrightarrow> contains_match q s"
  by (induction s) auto

lemma takeWhile_name:
  "list_all is_name_char k \<Longrightarrow> \<not> is_name_char c \<Longrightarrow>
     takeWhile is_name_char (k @ c # rest) = k"
  by (induction k) auto

lemma name_then_brace:
  assumes "is_name k"
  shows "match_here [NamePlus, Chr CHR ''}'', Opt CHR ''}''] (k @ CHR ''}'' # rest) \<noteq> None"
proof -
  have nb: "\<not> is_name_char CHR ''}''"
    by (simp add: is_name_char_def is_word_char_def)
  from assms have k: "k \<noteq> []" "list_all is_name_char k"
    by (simp_all add: is_name_def)
  have "match_here [Chr CHR ''}'', Opt CHR ''}''] (drop (length k) (k @ CHR ''}'' # rest)) \<noteq> None"
    unfolding match_Chr_iff match_Opt_iff by auto
  moreover have "1 \<le> length k" using k(1) by (cases k) auto
  moreover have "length k \<le> length (takeWhile is_name_char (k @ CHR ''}'' # rest))"
    using takeWhile_name [OF k(2) nb] by simp
  ultimately show ?thesis
    unfolding match_NamePlus_iff by blast
qed

lemma single_braces_shape:
  assumes "is_name k" and "match_here (single_braces k) t \<noteq> None"
  shows "match_here placeholder_shape t \<noteq> None"
proof -
  from assms(2) have "take (length (''{'' @ k @ ''}'')) t = ''{'' @ k @ ''}''"
    by (simp add: single_braces_def match_here_literal split: if_splits)
  then have "t = (''{'' @ k @ ''}'') @ drop (length (''{'' @ k @ ''}'')) t"
    by (metis append_take_drop_id)
  then obtain rest where t: "t = CHR ''{'' # k @ CHR ''}'' # rest"
    by auto
  have "match_here [Opt CHR ''{'', NamePlus, Chr CHR ''}'', Opt CHR ''}''] (k @ CHR ''}'' # rest) \<noteq> None"
    unfolding match_Opt_iff using name_then_brace [OF assms(1)] by blast
  with t show ?thesis
    unfolding placeholder_shape_def match_Chr_iff by blast
qed

lemma double_braces_shape:
  assumes "is_name k" and "match_here (double_braces k) t \<noteq> None"
  shows "match_here placeholder_shape t \<noteq> None"
proof -
  from assms(2) have "take (length (''{{'' @ k @ ''}}'')) t = ''{{'' @ k @ ''}}''"
    by (simp add: double_braces_def match_here_literal split: if_splits)
  then have "t = (''{{'' @ k @ ''}}'') @ drop (length (''{{'' @ k @ ''}}'')) t"
    by (metis append_take_drop_id)
  then obtain rest where t: "t = CHR ''{'' # CHR ''{'' # k @ CHR ''}'' # rest"
    by auto
  have "match_here [Opt CHR ''{'', NamePlus, Chr CHR ''}'', Opt CHR ''}'']
          (CHR ''{'' # k @ CHR ''}'' # rest) \<noteq> None"
    unfolding match_Opt_iff using name_then_brace [OF assms(1)] by blast
  with t show ?thesis
    unfolding placeholder_shape_def match_Chr_iff by blast
qed


lemma syntax_char_not_name: "c \<in> set syntax_chars \<Longrightarrow> \<not> is_name_char c"
  unfolding syntax_chars_def is_name_char_def is_word_char_def by auto

lemma is_name_plain: "is_name k \<Longrightarrow> plain_key k"
  unfolding is_name_def plain_key_def
  using syntax_char_not_name by (auto simp: list_all_iff)

lemma underscore_word: "is_word_char CHR ''_''"
  by (simp add: is_word_char_def)

lemma is_name_hyphenKey: "is_name k \<Longrightarrow> is_name (hyphenKey k)"
  unfolding is_name_def hyphenKey_def
  by (auto simp: list_all_iff is_name_char_def)

lemma is_name_underscoreKey: "is_name k \<Longrightarrow> is_name (underscoreKey k)"
  unfolding is_name_def underscoreKey_def
  by (auto simp: list_all_iff is_name_char_def underscore_word)

lemma replace_key_clean:
  assumes "is_name k" and "\<not> contains_match placeholder_shape R"
  shows "replace_key k sv R = R"
proof -
  have d: "\<not> contains_match (double_braces k) R"
    using assms(2) contains_match_mono [of "double_braces k" placeholder_shape R]
      double_braces_shape [OF assms(1)] by blast
  have s: "\<not> contains_match (single_braces k) R"
    using assms(2) contains_match_mono [of "single_braces k" placeholder_shape R]
      single_braces_shape [OF assms(1)] by blast
  show ?thesis
    by (simp add: replace_key_def replace_all_no_match d s)
qed

lemma subst_plain_clean:
  assumes "is_name k" and "\<not> contains_match placeholder_shape R"
  shows "subst_plain k sv R = R"
  using assms
  by (simp add: subst_plain_def Let_def replace_key_clean is_name_hyphenKey is_name_underscoreKey)

lemma cleanup_clean:
  assumes "\<not> contains_match placeholder_shape R"
  shows "cleanup R = R"
proof -
  have d: "\<not> contains_match double_any R"
    using assms contains_match_mono [of double_any placeholder_shape R] double_any_shape by blast
  have s: "\<not> contains_match single_any R"
    using assms contains_match_mono [of single_any placeholder_shape R] single_any_shape by blast
  show ?thesis
    by (simp add: cleanup_def replace_all_no_match d s)
qed

lemma fill_loop_clean:
  assumes "\<not> contains_match placeholder_shape R"
  shows "list_all is_name (map fst V) \<Longrightarrow> fill_loop rt V R = Inr R"
proof (induction V)
  case Nil
  show ?case by simp
next
  case (Cons kv V)
  obtain k v where kv: "kv = (k, v)" by (cases kv)
  with Cons.prems have k: "is_name k" and V: "list_all is_name (map fst V)"
    by simp_all
  have "subst_key rt k v R = Inr R"
    by (simp add: subst_key_def is_name_plain [OF k] subst_plain_clean [OF k assms])
  with kv Cons.IH [OF V] show ?case by simp
qed

lemma GetSubstitution_no_pattern:
  "\<not> has_pattern r \<Longrightarrow> GetSubstitution m pre post r = r"
  by (induction m pre post r rule: GetSubstitution.induct) auto

lemma replace_from_literal:
  "pat \<noteq> [] \<Longrightarrow> \<not> has_pattern v \<Longrightarrow>
     replace_from (literal pat) v pre s = replace_literal pat v s"
proof (induction pat v s arbitrary: pre rule: replace_literal.induct)
  case (1 pat v)
  then show ?case
    by (simp add: match_here_literal)
next
  case (2 pat v c cs)
  show ?case
  proof (cases "take (length pat) (c # cs) = pat")
    case True
    from "2.prems"(1) obtain n where n: "length pat = Suc n"
      by (cases pat) auto
    with True have m: "match_here (literal pat) (c # cs) = Some (Suc n)"
      by (simp add: match_here_literal)
    have "replace_from (literal pat) v (pre @ c # take n cs) (drop n cs)
        = replace_literal pat v (drop (length pat - 1) cs)"
      using "2.IH"(1) [of "pre @ c # take n cs"] "2.prems" True n by simp
    with m "2.prems" True n show ?thesis
      by (simp add: GetSubstitution_no_pattern)
  next
    case False
    then have m: "match_here (literal pat) (c # cs) = None"
      by (simp add: match_here_literal)
    have "replace_from (literal pat) v (pre @ [c]) cs = replace_literal pat v cs"
      using "2.IH"(2) [of "pre @ [c]"] "2.prems" False by simp
    with m False show ?thesis by simp
  qed
qed

lemma replace_key_literal:
  "\<not> has_pattern v \<Longrightarrow> replace_key k v t = literal_key k v t"
  by (simp add: replace_key_def literal_key_def replace_all_def double_braces_def
      single_braces_def replace_from_literal)

lemma subst_plain_literal:
  "\<not> has_pattern v \<Longrightarrow> subst_plain k v t = literal_key_step k v t"
  by (simp add: subst_plain_def literal_key_step_def Let_def replace_key_literal)

lemma fill_loop_literal:
  "list_all (\<lambda>(k, v). plain_key k \<and> \<not> has_pattern (stringValue v)) V \<Longrightarrow>
     fill_loop rt V t = Inr (literal_fill V t)"
  by (induction V arbitrary: t) (auto simp: subst_key_def subst_plain_literal)

lemma replace_all_at_match:
  assumes "pat \<noteq> []" and "\<not> has_pattern x"
  shows "replace_all (literal pat) x (pat @ rest) = x @ replace_all (literal pat) x rest"
proof -
  from assms(1) have "replace_literal pat x (pat @ rest) = x @ replace_literal pat x rest"
    by (cases pat) auto
  with assms show ?thesis
    by (simp add: replace_all_def replace_from_literal)
qed

text \<open>
  Claim C1: the text \<^verbatim>\<open>fillVariables\<close> returns should contain no substring of the
  placeholder shape \<^verbatim>\<open>\{\{?[\w-]+\}\}?\<close>. Each clean-up expression is applied in
  one pass over the text, so a placeholder that only forms when an inner one is deleted
  stays: for the template \<^verbatim>\<open>{a{b}c}\<close> and no variables the result is
  \<^verbatim>\<open>{ac}\<close>, which has the placeholder shape.
\<close>

theorem cleanup_leaves_nested_placeholder:
  "fillVariables rt ''{a{b}c}'' [] = Inr ''{ac}'' \<and> contains_match placeholder_shape ''{ac}''"
  by (simp add: fillVariables_def cleanup_def replace_all_def double_any_def single_any_def
      placeholder_shape_def is_name_char_def is_word_char_def)

text \<open>
  Claim C2: filling the result of a filling again, with the same variables, should give
  the same text. It does not in general: a key that is not a name (\<^verbatim>\<open>a b\<close>) whose
  value holds its own placeholder is replaced again by the second filling.
\<close>

theorem fill_not_idempotent:
  "fillVariables rejecting ''{a b}'' [(''a b'', Str ''Z{a b}'')] = Inr ''Z{a b}''
   \<and> fillVariables rejecting ''Z{a b}'' [(''a b'', Str ''Z{a b}'')] = Inr ''ZZ{a b}''"
  by code_simp

text \<open>
  Claim C2, amended: when every key is a name (a non-empty run of word characters and
  hyphens) and the result of the first filling holds no substring of the placeholder
  shape, the second filling returns it unchanged.
\<close>

theorem fill_idempotent_on_clean_output:
  assumes "fillVariables rt T V = Inr R"
    and "list_all is_name (map fst V)"
    and "\<not> contains_match placeholder_shape R"
  shows "fillVariables rt R V = Inr R"
  by (simp add: fillVariables_def fill_loop_clean [OF assms(3) assms(2)] cleanup_clean [OF assms(3)])

theorem fill_idempotent_on_clean_output_witness:
  "fillVariables rejecting ''Hello {{user-name}}!'' [(''user_name'', Str ''Ada'')] = Inr ''Hello Ada!''
   \<and> fillVariables rejecting ''Hello Ada!'' [(''user_name'', Str ''Ada'')] = Inr ''Hello Ada!''"
proof -
  have h1: "fillVariables rejecting ''Hello {{user-name}}!'' [(''user_name'', Str ''Ada'')] = Inr ''Hello Ada!''"
    by code_simp
  have h2: "list_all is_name (map fst [(''user_name'', Str ''Ada'')])"
    by code_simp
  have h3: "\<not> contains_match placeholder_shape ''Hello Ada!''"
    by code_simp
  from fill_idempotent_on_clean_output [OF h1 h2 h3] h1 show ?thesis by simp
qed

text \<open>
  Claim C3: the keys are taken in the order of the mapping, each replacement inserts
  the value literally, and a later key never matches text that an earlier value
  brought in. The replacement text is expanded by the runtime (\<^verbatim>\<open>$$\<close> becomes
  \<^verbatim>\<open>$\<close>), and each key works on the text the keys before it produced: the
  template \<^verbatim>\<open>{{a}}\<close> has no placeholder of \<^verbatim>\<open>b\<close>, and the value of \<^verbatim>\<open>b\<close> still
  ends in the result through the value of \<^verbatim>\<open>a\<close>.
\<close>

theorem fill_rescans_and_expands_dollar:
  "fillVariables rejecting ''{{a}}'' [(''a'', Str ''$$'')] = Inr ''$''
   \<and> \<not> contains_match (double_braces ''b'') ''{{a}}'' \<and> \<not> contains_match (single_braces ''b'') ''{{a}}''
   \<and> fillVariables rejecting ''{{a}}'' [(''a'', Str ''{{b}}''), (''b'', Str ''X'')] = Inr ''X''"
  by code_simp

text \<open>
  Claim C3, amended: the entries are processed in the order they are listed, each on
  the text that the entries before it produced, so that the placeholder of a later key
  can match text that the value of an earlier key brought in; within one replacement
  pass the text inserted is not scanned again. For a key without syntax characters of
  regular expressions and a value whose string form holds none of the replacement
  patterns \<^verbatim>\<open>$$\<close>, \<^verbatim>\<open>$&\<close>, \<^verbatim>\<open>$`\<close>, \<^verbatim>\<open>$'\<close>, every replacement is literal:
  each occurrence of \<^verbatim>\<open>{{key}}\<close> and then of \<^verbatim>\<open>{key}\<close>, in the key's own spelling
  and then in its spellings with hyphens and with underscores, is replaced by the
  string form of the value as it is; what \<^verbatim>\<open>fillVariables\<close> returns is the clean-up
  of the text so produced.
\<close>

theorem fill_in_order_and_verbatim:
  "fill_loop rt (V1 @ V2) t =
     (case fill_loop rt V1 t of Inl e \<Rightarrow> Inl e | Inr t' \<Rightarrow> fill_loop rt V2 t')
   \<and> (plain_key k \<and> \<not> has_pattern (stringValue v) \<longrightarrow>
        subst_key rt k v t = Inr (literal_key_step k (stringValue v) t))
   \<and> (list_all (\<lambda>(k, v). plain_key k \<and> \<not> has_pattern (stringValue v)) V \<longrightarrow>
        fill_loop rt V t = Inr (literal_fill V t)
      \<and> fillVariables rt t V = Inr (cleanup (literal_fill V t)))
   \<and> (pat \<noteq> [] \<and> \<not> has_pattern x \<longrightarrow>
        replace_all (literal pat) x (pat @ rest) = x @ replace_all (literal pat) x rest)"
  by (simp add: fill_loop_append fill_loop_literal fillVariables_def replace_all_at_match
      subst_key_def subst_plain_literal)

theorem fill_in_order_and_verbatim_witness:
  "fillVariables rejecting ''Pay {{amount}} to {user-name} ({{count}}), {{amount}}''
       [(''amount'', Str ''$5.00''), (''user_name'', Str ''Ada''), (''count'', NonString ''3'')]
     = Inr ''Pay $5.00 to Ada (3), $5.00''
   \<and> fillVariables rejecting ''{{a-b}}'' [(''a_b'', Str ''w''), (''a-b'', Str ''v'')] = Inr ''w''
   \<and> fill_loop rejecting [(''a'', Str ''{{b}}''), (''b'', Str ''X'')] ''{{a}}'' = Inr ''X''
   \<and> replace_all (literal ''{a}'') ''<{a}>'' ''{a}{a}'' = ''<{a}><{a}>''"
proof -
  let ?V = "[(''amount'', Str ''$5.00''), (''user_name'', Str ''Ada''), (''count'', NonString ''3'')]"
  let ?T = "''Pay {{amount}} to {user-name} ({{count}}), {{amount}}''"
  let ?W = "[(''a_b'', Str ''w''), (''a-b'', Str ''v'')]"
  have hV: "list_all (\<lambda>(k, v). plain_key k \<and> \<not> has_pattern (stringValue v)) ?V"
    by code_simp
  have hW: "list_all (\<lambda>(k, v). plain_key k \<and> \<not> has_pattern (stringValue v)) ?W"
    by code_simp
  have cV: "cleanup (literal_fill ?V ?T) = ''Pay $5.00 to Ada (3), $5.00''"
    by code_simp
  have cW: "cleanup (literal_fill ?W ''{{a-b}}'') = ''w''"
    by code_simp
  have s1: "fill_loop rejecting [(''a'', Str ''{{b}}'')] ''{{a}}'' = Inr ''{{b}}''"
    by code_simp
  have s2: "fill_loop rejecting [(''b'', Str ''X'')] ''{{b}}'' = Inr ''X''"
    by code_simp
  have p: "''{a}'' \<noteq> [] \<and> \<not> has_pattern ''<{a}>''"
    by simp
  have r: "replace_all (literal ''{a}'') ''<{a}>'' ''{a}'' = ''<{a}>''"
    by code_simp
  have "fillVariables rejecting ?T ?V = Inr (cleanup (literal_fill ?V ?T))"
    using fill_in_order_and_verbatim [of rejecting "[]" "[]" ?T "''a''" "Str ''b''" ?V "''{a}''" "''b''" "[]"] hV
    by simp
  moreover have "fillVariables rejecting ''{{a-b}}'' ?W = Inr (cleanup (literal_fill ?W ''{{a-b}}''))"
    using fill_in_order_and_verbatim [of rejecting "[]" "[]" "''{{a-b}}''" "''a''" "Str ''b''" ?W "''{a}''" "''b''" "[]"] hW
    by simp
  moreover have "fill_loop rejecting [(''a'', Str ''{{b}}''), (''b'', Str ''X'')] ''{{a}}'' = Inr ''X''"
    using fill_in_order_and_verbatim [of rejecting "[(''a'', Str ''{{b}}'')]" "[(''b'', Str ''X'')]"
        "''{{a}}''" "''a''" "Str ''b''" "[]" "''{a}''" "''b''" "[]"] s1 s2
    by simp
  moreover have "replace_all (literal ''{a}'') ''<{a}>'' ''{a}{a}'' = ''<{a}><{a}>''"
    using fill_in_order_and_verbatim [of rejecting "[]" "[]" "[]" "''a''" "Str ''b''" "[]"
        "''{a}''" "''<{a}>''" "''{a}''"] p r
    by simp
  ultimately show ?thesis
    by (simp only: cV cW simp_thms)
qed

section \<open>Properties of dialect detection, schema translation and observation matching\<close>

text \<open>
  Claim C8: a role marker should be recognised in any letter casing. The split and the
  comparison of the parts ignore case, but the test that comes first,
  \<^verbatim>\<open>text.includes('[SYSTEM]') || ...\<close>, does not: a template whose markers are all
  in lower case is not recognised as marker blocks (\<^verbatim>\<open>parseTextMarkerFormat\<close>
  returns \<^verbatim>\<open>null\<close>, and the template is treated as plain text, \<^verbatim>\<open>JSON.parse\<close>
  having rejected it), while the same template with the marker in upper case is, and a
  marker in lower case is recognised once another marker is in upper case.
\<close>

theorem lower_case_marker_not_recognised:
  "parseTextMarkerFormat ''[system] Be brief'' = None
   \<and> parseTextMarkerFormat ''[SYSTEM] Be brief''
       = Some [\<lparr>role = Some (JStr ''system''), content = ''Be brief''\<rparr>]
   \<and> parseTextMarkerFormat ''[SYSTEM] Be brief [user] Hi''
       = Some [\<lparr>role = Some (JStr ''system''), content = ''Be brief''\<rparr>,
               \<lparr>role = Some (JStr ''user''), content = ''Hi''\<rparr>]
   \<and> parseAndFillPrompt rt (\<lambda>s. None) ''[system] Be brief'' []
       = Inr (PlainText ''[system] Be brief'')"
  by code_simp

text \<open>
  Claim C9: a literal should translate to an enum of one value with the primitive type
  of the value. A literal number gets the type and no enum list.
\<close>

theorem number_literal_has_no_enum:
  "zodToGeminiSchema never_optional (ZodLiteral (LNumber 5))
     = Schema NUMBER None None None None None None
   \<and> s_enum (zodToGeminiSchema never_optional (ZodLiteral (LNumber 5))) = None"
  by (simp add: zodToGeminiSchema_def of_type_def)

text \<open>
  Claim C9, amended: a literal string translates to the type STRING with an enum list
  that holds exactly that string; a literal number or boolean translates to the type
  NUMBER or BOOLEAN, with no enum list.
\<close>

theorem literal_translation:
  "s_type (zodToGeminiSchema isOptional (ZodLiteral (LString s))) = STRING
   \<and> s_enum (zodToGeminiSchema isOptional (ZodLiteral (LString s))) = Some [s]
   \<and> s_type (zodToGeminiSchema isOptional (ZodLiteral (LNumber n))) = NUMBER
   \<and> s_enum (zodToGeminiSchema isOptional (ZodLiteral (LNumber n))) = None
   \<and> s_type (zodToGeminiSchema isOptional (ZodLiteral (LBoolean b))) = BOOLEAN
   \<and> s_enum (zodToGeminiSchema isOptional (ZodLiteral (LBoolean b))) = None"
  by (simp add: zodToGeminiSchema_def of_type_def)

lemma find_first_exact:
  "find_first (exact_match p) observations
     = Inr (find (\<lambda>obs. obs_name obs = Some (JStr p)) observations)"
  by (induction observations) (simp_all add: exact_match_def)

text \<open>
  Claim C7: when one observation has exactly the prompt name and another one matches
  it after normalisation, the first is returned. The guard \<^verbatim>\<open>!originalPromptName\<close>
  comes before every match and also holds for the empty name: then the first
  observation of the list is returned, here the one that matches after normalisation.
\<close>

theorem empty_prompt_name_skips_exact_match:
  "exact_match []
       \<lparr>obs_id = ''o2'', obs_name = Some (JStr []), function_name = None,
        meta_promptName = None, obs_output = None\<rparr> = Inr True
   \<and> normalized_match []
       \<lparr>obs_id = ''o1'', obs_name = Some (JStr ''x''), function_name = None,
        meta_promptName = None, obs_output = None\<rparr> = Inr True
   \<and> findMatchingObservation (Some [])
       [\<lparr>obs_id = ''o1'', obs_name = Some (JStr ''x''), function_name = None,
         meta_promptName = None, obs_output = None\<rparr>,
        \<lparr>obs_id = ''o2'', obs_name = Some (JStr []), function_name = None,
         meta_promptName = None, obs_output = None\<rparr>]
     = Inr (Some \<lparr>obs_id = ''o1'', obs_name = Some (JStr ''x''), function_name = None,
                  meta_promptName = None, obs_output = None\<rparr>)"
  by code_simp

text \<open>
  Claim C7, amended: for a prompt name that is not empty, and a list with an
  observation whose name is exactly the prompt name, \<^verbatim>\<open>findMatchingObservation\<close>
  returns an observation with exactly that name, the first of the list, whatever else
  the list holds and in whatever order.
\<close>

theorem exact_match_wins:
  assumes "p \<noteq> []" and "e \<in> set observations" and "obs_name e = Some (JStr p)"
  shows "\<exists>m. findMatchingObservation (Some p) observations = Inr (Some m)
           \<and> find (\<lambda>obs. obs_name obs = Some (JStr p)) observations = Some m
           \<and> m \<in> set observations \<and> obs_name m = Some (JStr p)"
proof -
  from assms(2,3) have "find (\<lambda>obs. obs_name obs = Some (JStr p)) observations \<noteq> None"
    by (auto simp: find_None_iff)
  then obtain m where m: "find (\<lambda>obs. obs_name obs = Some (JStr p)) observations = Some m"
    by auto
  then have "m \<in> set observations \<and> obs_name m = Some (JStr p)"
    by (auto simp: find_Some_iff)
  moreover from assms(1,2) m
  have "findMatchingObservation (Some p) observations = Inr (Some m)"
    by (auto simp: findMatchingObservation_def find_first_exact)
  ultimately show ?thesis using m by blast
qed

theorem exact_match_wins_witness:
  "findMatchingObservation (Some ''workflow/intake-criteria'')
       [\<lparr>obs_id = ''o1'', obs_name = Some (JStr ''generateIntakeCriteria''), function_name = None,
         meta_promptName = None, obs_output = None\<rparr>,
        \<lparr>obs_id = ''o2'', obs_name = Some (JStr ''workflow/intake-criteria''), function_name = None,
         meta_promptName = None, obs_output = None\<rparr>]
     = Inr (Some \<lparr>obs_id = ''o2'', obs_name = Some (JStr ''workflow/intake-criteria''),
                  function_name = None, meta_promptName = None, obs_output = None\<rparr>)
   \<and> normalized_match ''workflow/intake-criteria''
       \<lparr>obs_id = ''o1'', obs_name = Some (JStr ''generateIntakeCriteria''), function_name = None,
        meta_promptName = None, obs_output = None\<rparr> = Inr True"
proof -
  let ?o1 = "\<lparr>obs_id = ''o1'', obs_name = Some (JStr ''generateIntakeCriteria''),
      function_name = None, meta_promptName = None, obs_output = None\<rparr>"
  let ?o2 = "\<lparr>obs_id = ''o2'', obs_name = Some (JStr ''workflow/intake-criteria''),
      function_name = None, meta_promptName = None, obs_output = None\<rparr>"
  have n: "normalized_match ''workflow/intake-criteria'' ?o1 = Inr True"
    by code_simp
  have f: "find (\<lambda>obs. obs_name obs = Some (JStr ''workflow/intake-criteria'')) [?o1, ?o2] = Some ?o2"
    by simp
  from exact_match_wins [of "''workflow/intake-criteria''" ?o2 "[?o1, ?o2]"]
  obtain m where "findMatchingObservation (Some ''workflow/intake-criteria'') [?o1, ?o2] = Inr (Some m)"
    and "find (\<lambda>obs. obs_name obs = Some (JStr ''workflow/intake-criteria'')) [?o1, ?o2] = Some m"
    by auto
  with f n show ?thesis by simp
qed

section \<open>Properties of a run\<close>

lemma slice_nat:
  assumes "1 \<le> c"
  shows "slice xs (int i) (int i + c) = take (nat c) (drop i xs)"
proof (cases "i \<le> length xs")
  case True
  with assms have "nat (min (int i + c) (int (length xs)) - int i) = min (nat c) (length xs - i)"
    by (auto simp: min_def)
  moreover have "take (min (nat c) (length xs - i)) (drop i xs) = take (nat c) (drop i xs)"
    by (simp add: min_def)
  ultimately show ?thesis
    using True assms by (simp add: slice_def Let_def min_absorb1)
next
  case False
  with assms show ?thesis
    by (simp add: slice_def Let_def min_def)
qed

lemma traceId_runSingleEval [simp]:
  "traceId (runSingleEval rt parse w prompt tid prov given) = tid"
  by (simp add: runSingleEval_def split: option.splits sum.splits prod.splits)

lemma run_batch_append:
  "run_batch E inp base (xs @ ys) = run_batch E inp base xs @ run_batch E inp (base + length xs) ys"
  by (simp add: run_batch_def enumerate_append_eq)

lemma run_batch_Nil [simp]: "run_batch E inp base [] = []"
  by (simp add: run_batch_def)

lemma length_run_batch [simp]: "length (run_batch E inp base xs) = length xs"
  by (simp add: run_batch_def)

lemma traceId_run_batch [simp]: "map traceId (run_batch E inp base xs) = xs"
  by (induction xs arbitrary: base) (simp_all add: run_batch_def)

lemma batch_count_gt: "0 < c \<Longrightarrow> k < batch_count n c \<longleftrightarrow> k * c < n"
proof -
  assume c: "0 < c"
  have "batch_count n c \<le> k \<longleftrightarrow> (n + c - 1) div c < Suc k"
    by (simp add: batch_count_def less_Suc_eq_le)
  also have "\<dots> \<longleftrightarrow> n + c - 1 < Suc k * c"
    using c by (simp add: div_less_iff_less_mult)
  also have "\<dots> \<longleftrightarrow> n \<le> k * c"
    using c by auto
  finally show ?thesis by auto
qed


lemma batch_step_nat:
  assumes "1 \<le> c" and "length acc = k * nat c"
  shows "batch_step E inp c (int (k * nat c)) (acc, log) =
     (acc @ run_batch E inp (k * nat c) (batch_slice (traceIds inp) (nat c) k),
      log @ batch_events inp (nat c) k)"
proof -
  have s: "slice (traceIds inp) (int (k * nat c)) (int (k * nat c) + c)
      = batch_slice (traceIds inp) (nat c) k"
    by (simp only: batch_slice_def slice_nat [OF assms(1)])
  have "int (k * nat c) div c = int k"
    using assms(1) by simp
  then have n: "batch_number (int (k * nat c)) c = Some (int k + 1)"
    using assms(1) by (simp add: batch_number_def)
  show ?thesis
    unfolding batch_step_def
    by (simp only: s n prod.case Let_def assms(2) batch_events_def traceId_run_batch)
qed

lemma batch_loop_from:
  assumes c: "1 \<le> c"
  shows "length acc = min (k * nat c) (length (traceIds inp)) \<Longrightarrow>
     batch_loop E inp c (int (k * nat c)) (acc, log) =
       Some (acc @ run_batch E inp (length acc) (drop (k * nat c) (traceIds inp)),
             log @ concat (map (batch_events inp (nat c))
                     [k..<batch_count (length (traceIds inp)) (nat c)]))"
proof (induction "length (traceIds inp) - k * nat c" arbitrary: k acc log rule: less_induct)
  case less
  let ?n = "length (traceIds inp)"
  let ?c = "nat c"
  let ?m = "batch_count ?n ?c"
  from c have cpos: "0 < ?c" by simp
  show ?case
  proof (cases "k * ?c < ?n")
    case False
    then have e: "[k..<?m] = []"
      using batch_count_gt [OF cpos, of k ?n] by simp
    from False have ni: "\<not> int (k * ?c) < int ?n"
      by (simp only: of_nat_less_iff not_False_eq_True)
    from False have d: "drop (k * ?c) (traceIds inp) = []"
      by simp
    have "batch_loop E inp c (int (k * ?c)) (acc, log) = Some (acc, log)"
      by (subst batch_loop.simps) (simp only: ni if_False)
    then show ?thesis
      by (simp only: d e run_batch_Nil list.map concat.simps append_Nil2)
  next
    case True
    then have km: "k < ?m"
      using batch_count_gt [OF cpos] by simp
    from True less.prems have la: "length acc = k * ?c" by simp
    let ?b = "batch_slice (traceIds inp) ?c k"
    let ?acc' = "acc @ run_batch E inp (k * ?c) ?b"
    let ?log' = "log @ batch_events inp ?c k"
    have step: "batch_step E inp c (int (k * ?c)) (acc, log) = (?acc', ?log')"
      by (rule batch_step_nat [OF c la])
    have next_i: "int (k * ?c) + c = int (Suc k * ?c)"
      using c by simp
    have lb: "length ?b = min ?c (?n - k * ?c)"
      by (simp add: batch_slice_def)
    have la': "length ?acc' = min (Suc k * ?c) ?n"
      using True la lb by (auto simp: min_def)
    have dec: "?n - Suc k * ?c < ?n - k * ?c"
      using True cpos by simp
    have "batch_loop E inp c (int (k * ?c)) (acc, log)
        = batch_loop E inp c (int (Suc k * ?c)) (?acc', ?log')"
    proof -
      from True have lt: "int (k * ?c) < int ?n"
        by (simp only: of_nat_less_iff)
      show ?thesis
        by (subst batch_loop.simps) (simp only: lt if_True step next_i)
    qed
    also have "\<dots> = Some (?acc' @ run_batch E inp (length ?acc') (drop (Suc k * ?c) (traceIds inp)),
        ?log' @ concat (map (batch_events inp ?c) [Suc k..<?m]))"
      by (rule less.hyps [OF dec la'])
    also have "?acc' @ run_batch E inp (length ?acc') (drop (Suc k * ?c) (traceIds inp))
        = acc @ run_batch E inp (length acc) (drop (k * ?c) (traceIds inp))"
    proof -
      have "drop (k * ?c) (traceIds inp) = ?b @ drop (Suc k * ?c) (traceIds inp)"
        by (simp add: batch_slice_def add.commute)
           (metis append_take_drop_id drop_drop add.commute)
      moreover have "length ?acc' = k * ?c + length ?b"
        using la by simp
      ultimately show ?thesis
        using la by (simp add: run_batch_append)
    qed
    also have "?log' @ concat (map (batch_events inp ?c) [Suc k..<?m])
        = log @ concat (map (batch_events inp ?c) [k..<?m])"
      using km by (simp add: upt_conv_Cons)
    finally show ?thesis .
  qed
qed

lemma run_evaluations_closed:
  assumes "1 \<le> limit inp"
  shows "run_evaluations E inp =
     Some (run_batch E inp 0 (traceIds inp),
           concat (map (batch_events inp (nat (limit inp)))
                     [0..<batch_count (length (traceIds inp)) (nat (limit inp))]))"
  using batch_loop_from [OF assms, of "[]" 0 inp E "[]"]
  by (simp add: run_evaluations_def)

lemma batch_loop_diverges:
  assumes ret: "batch_loop E inp c i st = Some y"
  shows "\<not> (c \<le> 0 \<and> i \<le> 0 \<and> traceIds inp \<noteq> [])"
proof (rule batch_loop.raw_induct
    [where P = "\<lambda>E inp c i st y. \<not> (c \<le> 0 \<and> i \<le> 0 \<and> traceIds inp \<noteq> [])", OF _ ret])
  fix f :: "'a env \<Rightarrow> EvalRunInput \<Rightarrow> int \<Rightarrow> int \<Rightarrow> 'a TraceEvalResult list \<times> event list
      \<Rightarrow> ('a TraceEvalResult list \<times> event list) option"
    and E inp c i st y
  assume IH: "\<And>E inp c i st y. f E inp c i st = Some y
      \<Longrightarrow> \<not> (c \<le> 0 \<and> i \<le> 0 \<and> traceIds inp \<noteq> [])"
    and eq: "(if i < int (length (traceIds inp))
        then f E inp c (i + c) (batch_step E inp c i st) else Some st) = Some y"
  show "\<not> (c \<le> 0 \<and> i \<le> 0 \<and> traceIds inp \<noteq> [])"
  proof
    assume h: "c \<le> 0 \<and> i \<le> 0 \<and> traceIds inp \<noteq> []"
    then have "i < int (length (traceIds inp))" by (cases "traceIds inp") auto
    with eq have "f E inp c (i + c) (batch_step E inp c i st) = Some y" by simp
    from IH [OF this] h show False by simp
  qed
qed

lemma run_evaluations_results:
  assumes "run_evaluations E inp = Some (rs, log)"
  shows "rs = run_batch E inp 0 (traceIds inp)"
proof (cases "1 \<le> limit inp")
  case True
  from run_evaluations_closed [OF True, of E] assms show ?thesis by simp
next
  case False
  show ?thesis
  proof (cases "traceIds inp = []")
    case True
    with assms show ?thesis
      by (simp add: run_evaluations_def batch_loop.simps)
  next
    case ne: False
    from assms have "batch_loop E inp (limit inp) 0 ([], []) = Some (rs, log)"
      by (simp add: run_evaluations_def)
    from batch_loop_diverges [OF this] False ne show ?thesis by simp
  qed
qed



lemma nth_run_batch:
  "i < length xs \<Longrightarrow>
     run_batch E inp base xs ! i =
       runSingleEval (env_regexp E) (env_parse E) (env_world E (base + i)) (draftPrompt inp) (xs ! i)
         (provider inp) (lookup_output (traceObservationPairs inp) (xs ! i))"
  by (simp add: run_batch_def nth_enumerate_eq)

lemma run_returns:
  assumes "1 \<le> limit inp" and "env_create_trace E = None" and "env_store_blob E = Inr url"
    and "env_update_trace E = None"
  shows "runTracesEvalFunction E inp
     = Some (Inr ((summary E inp (run_batch E inp 0 (traceIds inp)))\<lparr>resultsUrl := Some url\<rparr>))"
  using assms by (simp add: runTracesEvalFunction_def run_evaluations_closed)

lemma run_result:
  assumes "runTracesEvalFunction E inp = Some (Inr r)"
  shows "\<exists>url. r = (summary E inp (run_batch E inp 0 (traceIds inp)))\<lparr>resultsUrl := Some url\<rparr>"
proof -
  from assms obtain rs log url where re: "run_evaluations E inp = Some (rs, log)"
    and r: "r = (summary E inp rs)\<lparr>resultsUrl := Some url\<rparr>"
    by (auto simp: runTracesEvalFunction_def split: option.splits sum.splits)
  from run_evaluations_results [OF re] r show ?thesis by blast
qed

lemma concat_slices: "concat (map (batch_slice xs c) [0..<k]) = take (k * c) xs"
proof (induction k)
  case 0
  show ?case by simp
next
  case (Suc k)
  have "take (k * c) xs @ take c (drop (k * c) xs) = take (k * c + c) xs"
    by (simp add: take_add)
  with Suc show ?case
    by (simp add: batch_slice_def add.commute)
qed

lemma concat_all_slices:
  assumes "0 < c"
  shows "concat (map (batch_slice xs c) [0..<batch_count (length xs) c]) = xs"
proof -
  have "\<not> batch_count (length xs) c * c < length xs"
    using batch_count_gt [OF assms, of "batch_count (length xs) c" "length xs"] by simp
  then show ?thesis
    by (simp add: concat_slices)
qed

lemma slice_size:
  assumes "0 < c" and "k < batch_count (length xs) c"
  shows "batch_slice xs c k \<noteq> [] \<and> length (batch_slice xs c k) \<le> c"
proof -
  from assms have "k * c < length xs"
    using batch_count_gt by blast
  with assms(1) have "0 < length (batch_slice xs c k)"
    by (simp add: batch_slice_def)
  then show ?thesis
    by (auto simp: batch_slice_def)
qed


lemma collected_append: "collected (xs @ ys) = collected xs @ collected ys"
  by (induction xs rule: collected.induct) simp_all

lemma collected_started [simp]:
  "collected (map (\<lambda>(j, tid). EvalStarted no j tid) xs) = []"
  by (induction xs) auto

lemma collected_batch_events:
  "collected (batch_events inp c k) = [(Some (int k + 1), batch_slice (traceIds inp) c k)]"
  by (simp add: batch_events_def Let_def collected_append)

lemma collected_concat:
  "collected (concat (map (batch_events inp c) ks))
     = map (\<lambda>k. (Some (int k + 1), batch_slice (traceIds inp) c k)) ks"
  by (induction ks) (simp_all add: collected_append collected_batch_events)

lemma started_append: "started no (xs @ ys) = started no xs @ started no ys"
  by (induction no xs rule: started.induct) simp_all

lemma started_calls:
  "started no (map (\<lambda>(j, tid). EvalStarted no' j tid) xs) = (if no' = no then map snd xs else [])"
  by (induction xs) auto

lemma started_batch_events:
  "started (Some (int k + 1)) (batch_events inp c j)
     = (if j = k then batch_slice (traceIds inp) c k else [])"
  by (simp add: batch_events_def Let_def started_append started_calls)

lemma started_concat:
  "started (Some (int k + 1)) (concat (map (batch_events inp c) [0..<m]))
     = (if k < m then batch_slice (traceIds inp) c k else [])"
  by (induction m) (simp_all add: started_append started_batch_events)

lemma rank_batch_events:
  "e \<in> set (batch_events inp c k) \<Longrightarrow> 3 * (int k + 1) \<le> event_rank e \<and> event_rank e \<le> 3 * (int k + 1) + 2"
  by (auto simp: batch_events_def Let_def)

lemma sorted_constant: "sorted (map (\<lambda>x. a) xs)"
  by (induction xs) auto

lemma rank_started:
  "map event_rank (map (\<lambda>(j, tid). EvalStarted (Some n) j tid) xs) = map (\<lambda>x. 3 * n + 1) xs"
  by (induction xs) auto

lemma sorted_batch_events: "sorted (map event_rank (batch_events inp c k))"
  unfolding batch_events_def Let_def list.map map_append rank_started
  by (auto simp: sorted_append sorted_constant)

lemma sorted_log: "sorted (map event_rank (concat (map (batch_events inp c) [0..<m])))"
proof (induction m)
  case 0
  show ?case by simp
next
  case (Suc m)
  have "event_rank x \<le> event_rank y"
    if x: "x \<in> set (concat (map (batch_events inp c) [0..<m]))"
      and y: "y \<in> set (batch_events inp c m)" for x y
  proof -
    from x obtain j where j: "j < m" and xj: "x \<in> set (batch_events inp c j)"
      by auto
    from rank_batch_events [OF xj] rank_batch_events [OF y] j show ?thesis
      by simp
  qed
  with Suc sorted_batch_events [of inp c m] show ?case
    by (simp add: sorted_append)
qed

lemma collected_before_next_start:
  assumes "sorted (map event_rank log)" and "p < length log" and "q < length log"
    and "log ! p = EvalStarted (Some (n + 1)) j tid" and "log ! q = BatchCollected (Some n) ids"
  shows "q < p"
proof (rule ccontr)
  assume "\<not> q < p"
  then have "p \<le> q" by simp
  with assms(1,3) have "map event_rank log ! p \<le> map event_rank log ! q"
    by (simp add: sorted_iff_nth_mono del: nth_map)
  with assms(2-5) show False by simp
qed


text \<open>
  Claim C4: in the result of every run, \<open>successCount + failureCount = totalTraces\<close>,
  and \<open>totalTraces\<close> is the length of the list of trace ids: every trace id gives one
  result, and \<open>success\<close> splits the results in two. The run returns whenever the limit
  is at least 1 and no other step throws.
\<close>

theorem counts_sum_to_total:
  "(\<forall>r. runTracesEvalFunction E inp = Some (Inr r) \<longrightarrow>
        successCount r + failureCount r = totalTraces r
      \<and> totalTraces r = length (traceIds inp)
      \<and> length (results r) = length (traceIds inp))
   \<and> (1 \<le> limit inp \<and> env_create_trace E = None \<and> env_store_blob E = Inr url
        \<and> env_update_trace E = None
      \<longrightarrow> (\<exists>r. runTracesEvalFunction E inp = Some (Inr r)))"
proof (intro conjI allI impI)
  fix r
  assume "runTracesEvalFunction E inp = Some (Inr r)"
  from run_result [OF this] obtain u
    where r: "r = (summary E inp (run_batch E inp 0 (traceIds inp)))\<lparr>resultsUrl := Some u\<rparr>"
    by blast
  show "successCount r + failureCount r = totalTraces r"
    unfolding r by (simp add: summary_def sum_length_filter_compl)
  show "totalTraces r = length (traceIds inp)"
    unfolding r by (simp add: summary_def)
  show "length (results r) = length (traceIds inp)"
    unfolding r by (simp add: summary_def)
next
  assume "1 \<le> limit inp \<and> env_create_trace E = None \<and> env_store_blob E = Inr url
      \<and> env_update_trace E = None"
  then show "\<exists>r. runTracesEvalFunction E inp = Some (Inr r)"
    using run_returns [of inp E url] by simp
qed

theorem counts_sum_to_total_witness:
  "\<exists>r. runTracesEvalFunction sample_env (sample_run 5) = Some (Inr r)
     \<and> successCount r + failureCount r = 5 \<and> totalTraces r = 5
     \<and> successCount r = 2 \<and> failureCount r = 3"
proof -
  have h: "1 \<le> limit (sample_run 5) \<and> env_create_trace sample_env = None
      \<and> env_store_blob sample_env = Inr ''blob://run-1'' \<and> env_update_trace sample_env = None"
    by (simp add: limit_def sample_run_def sample_env_def)
  have n: "length (traceIds (sample_run 5)) = 5"
    by (simp add: sample_run_def)
  have s: "map success (run_batch sample_env (sample_run 5) 0 (traceIds (sample_run 5)))
      = [True, False, False, False, True]"
    by code_simp
  from counts_sum_to_total [of sample_env "sample_run 5" "''blob://run-1''"] h
  obtain r where r: "runTracesEvalFunction sample_env (sample_run 5) = Some (Inr r)"
    and t: "successCount r + failureCount r = totalTraces r"
      "totalTraces r = length (traceIds (sample_run 5))"
    by blast
  from run_result [OF r] have "successCount r
      = length (filter id (map success (run_batch sample_env (sample_run 5) 0 (traceIds (sample_run 5)))))"
    by (auto simp: summary_def filter_map comp_def)
  then have "successCount r = 2"
    unfolding s by simp
  with r t n show ?thesis by simp
qed

text \<open>
  Claim C10: the results of a run follow the trace ids: as many results as trace ids,
  and the result at each position has the trace id at that position, a trace id listed
  twice giving two results. The run returns whenever the limit is at least 1 and no
  other step throws.
\<close>

theorem results_follow_trace_ids:
  "(\<forall>r. runTracesEvalFunction E inp = Some (Inr r) \<longrightarrow>
        map traceId (results r) = traceIds inp
      \<and> length (results r) = length (traceIds inp)
      \<and> (\<forall>i < length (traceIds inp). traceId (results r ! i) = traceIds inp ! i))
   \<and> (1 \<le> limit inp \<and> env_create_trace E = None \<and> env_store_blob E = Inr url
        \<and> env_update_trace E = None
      \<longrightarrow> (\<exists>r. runTracesEvalFunction E inp = Some (Inr r)))"
proof (intro conjI allI impI)
  fix r
  assume "runTracesEvalFunction E inp = Some (Inr r)"
  from run_result [OF this] obtain u
    where r: "r = (summary E inp (run_batch E inp 0 (traceIds inp)))\<lparr>resultsUrl := Some u\<rparr>"
    by blast
  show m: "map traceId (results r) = traceIds inp"
    unfolding r by (simp add: summary_def)
  show l: "length (results r) = length (traceIds inp)"
    unfolding r by (simp add: summary_def)
  fix i
  assume "i < length (traceIds inp)"
  with l have "map traceId (results r) ! i = traceId (results r ! i)"
    by simp
  with m show "traceId (results r ! i) = traceIds inp ! i"
    by simp
next
  assume "1 \<le> limit inp \<and> env_create_trace E = None \<and> env_store_blob E = Inr url
      \<and> env_update_trace E = None"
  then show "\<exists>r. runTracesEvalFunction E inp = Some (Inr r)"
    using run_returns [of inp E url] by simp
qed

theorem results_follow_trace_ids_witness:
  "\<exists>r. runTracesEvalFunction sample_env
          ((sample_run 0)\<lparr>traceIds := [''a'', ''b'', ''a''], concurrency := Some 2\<rparr>) = Some (Inr r)
     \<and> map traceId (results r) = [''a'', ''b'', ''a'']"
proof -
  let ?inp = "(sample_run 0)\<lparr>traceIds := [''a'', ''b'', ''a''], concurrency := Some 2\<rparr>"
  have h: "1 \<le> limit ?inp \<and> env_create_trace sample_env = None
      \<and> env_store_blob sample_env = Inr ''blob://run-1'' \<and> env_update_trace sample_env = None"
    by (simp add: limit_def sample_env_def)
  from results_follow_trace_ids [of sample_env ?inp "''blob://run-1''"] h
  obtain r where "runTracesEvalFunction sample_env ?inp = Some (Inr r)"
    and "map traceId (results r) = traceIds ?inp"
    by blast
  then show ?thesis by simp
qed


text \<open>
  Claim C5: with a limit of at least 1 (10 when it is not set) the loop over the batches
  ends; the batches pushed are, in order, the contiguous slices of the trace ids of at
  most \<open>limit\<close> ids each, \<open>n / limit\<close> rounded up of them, none empty, together the
  whole list; the calls of a batch are the calls for its trace ids; and every call of
  batch \<open>n + 1\<close> is made after the results of batch \<open>n\<close> have been pushed. For 23 trace
  ids and the limit 10 that is 3 batches, of 10, 10 and 3 trace ids.
\<close>

theorem batches_run_in_order:
  assumes "1 \<le> limit inp"
  shows "\<exists>rs log. run_evaluations E inp = Some (rs, log)
     \<and> collected log
         = map (\<lambda>k. (Some (int k + 1), batch_slice (traceIds inp) (nat (limit inp)) k))
             [0..<batch_count (length (traceIds inp)) (nat (limit inp))]
     \<and> concat (map snd (collected log)) = traceIds inp
     \<and> (\<forall>k < batch_count (length (traceIds inp)) (nat (limit inp)).
            batch_slice (traceIds inp) (nat (limit inp)) k \<noteq> []
          \<and> length (batch_slice (traceIds inp) (nat (limit inp)) k) \<le> nat (limit inp)
          \<and> started (Some (int k + 1)) log = batch_slice (traceIds inp) (nat (limit inp)) k)
     \<and> (\<forall>p q n j tid ids.
            p < length log \<and> q < length log
          \<and> log ! p = EvalStarted (Some (n + 1)) j tid \<and> log ! q = BatchCollected (Some n) ids
          \<longrightarrow> q < p)"
proof -
  let ?c = "nat (limit inp)"
  let ?m = "batch_count (length (traceIds inp)) ?c"
  let ?log = "concat (map (batch_events inp ?c) [0..<?m])"
  from assms have cpos: "0 < ?c" by simp
  have run: "run_evaluations E inp = Some (run_batch E inp 0 (traceIds inp), ?log)"
    by (rule run_evaluations_closed [OF assms])
  have col: "collected ?log
      = map (\<lambda>k. (Some (int k + 1), batch_slice (traceIds inp) ?c k)) [0..<?m]"
    by (rule collected_concat)
  have part: "concat (map snd (collected ?log)) = traceIds inp"
    unfolding col using concat_all_slices [OF cpos, of "traceIds inp"]
    by (simp add: comp_def)
  have each: "\<forall>k < ?m. batch_slice (traceIds inp) ?c k \<noteq> []
      \<and> length (batch_slice (traceIds inp) ?c k) \<le> ?c
      \<and> started (Some (int k + 1)) ?log = batch_slice (traceIds inp) ?c k"
    using slice_size [OF cpos, of _ "traceIds inp"] by (simp add: started_concat)
  have order: "\<forall>p q n j tid ids.
      p < length ?log \<and> q < length ?log
      \<and> ?log ! p = EvalStarted (Some (n + 1)) j tid \<and> ?log ! q = BatchCollected (Some n) ids
      \<longrightarrow> q < p"
    using collected_before_next_start [OF sorted_log] by blast
  from run col part each order show ?thesis by blast
qed

theorem batches_run_in_order_witness:
  "1 \<le> limit (sample_run 23)
   \<and> (\<exists>rs log. run_evaluations sample_env (sample_run 23) = Some (rs, log)
        \<and> length (collected log) = 3
        \<and> map (\<lambda>b. length (snd b)) (collected log) = [10, 10, 3])"
proof -
  have h: "1 \<le> limit (sample_run 23)"
    by (simp add: limit_def sample_run_def)
  have c: "nat (limit (sample_run 23)) = 10"
    by (simp add: limit_def sample_run_def)
  have n: "length (traceIds (sample_run 23)) = 23"
    by (simp add: sample_run_def)
  have m: "batch_count 23 10 = 3"
    by (simp add: batch_count_def)
  have u: "[0..<3] = [0, Suc 0, Suc (Suc 0)]"
    by (simp add: upt_rec)
  from batches_run_in_order [OF h, of sample_env]
  obtain rs log where r: "run_evaluations sample_env (sample_run 23) = Some (rs, log)"
    and col: "collected log
      = map (\<lambda>k. (Some (int k + 1), batch_slice (traceIds (sample_run 23)) (nat (limit (sample_run 23))) k))
          [0..<batch_count (length (traceIds (sample_run 23))) (nat (limit (sample_run 23)))]"
    by blast
  from col have "length (collected log) = 3"
    by (simp add: c n m)
  moreover from col have "map (\<lambda>b. length (snd b)) (collected log) = [10, 10, 3]"
    by (simp add: c n m u batch_slice_def comp_def)
  ultimately show ?thesis using h r by auto
qed

text \<open>
  Claim C6: every failure of one trace should give a result with \<open>success\<close> false, an
  error message and the latency up to the failure. When resolution finds no variables
  the result carries no latency.
\<close>

theorem not_found_failure_has_no_latency:
  "success (runSingleEval rejecting (\<lambda>s. None) (sample_world 1) ''Hello {{name}}!'' ''trace-B''
              openai NotProvided) = False
   \<and> error (runSingleEval rejecting (\<lambda>s. None) (sample_world 1) ''Hello {{name}}!'' ''trace-B''
              openai NotProvided) = Some not_found_message
   \<and> latencyMs (runSingleEval rejecting (\<lambda>s. None) (sample_world 1) ''Hello {{name}}!'' ''trace-B''
              openai NotProvided) = None"
  by (simp add: runSingleEval_def sample_world_def)

text \<open>
  Claim C6, amended: every failure of one trace gives a result with \<open>success\<close> false,
  the trace id and an error message. When resolution finds no variables the result
  carries the not-found message and no latency; when filling the template or the call
  of the provider throws after resolution, the result carries the message thrown and
  the latency up to that point; in every other case the result has \<open>success\<close> true.
  With a limit of at least 1 the step returns one result per trace id, each computed
  from the world of its own call and its own trace id alone, so the failure of one
  trace does not keep another from its result.
\<close>

theorem failure_is_recorded_and_isolated:
  "(let r = runSingleEval rt parse w prompt tid prov given in
        traceId r = tid
      \<and> (resolved w = None \<longrightarrow>
            \<not> success r \<and> error r = Some not_found_message \<and> latencyMs r = None)
      \<and> (\<forall>td e. resolved w = Some td
              \<and> parseAndFillPrompt rt parse prompt (td_variables td) = Inl e \<longrightarrow>
            \<not> success r \<and> error r = Some e \<and> latencyMs r = Some (endTime w - startTime w))
      \<and> (\<forall>td fp e. resolved w = Some td
              \<and> parseAndFillPrompt rt parse prompt (td_variables td) = Inr fp
              \<and> call_provider w prov fp = Inl e \<longrightarrow>
            \<not> success r \<and> error r = Some e \<and> latencyMs r = Some (endTime w - startTime w))
      \<and> (\<forall>td fp out. resolved w = Some td
              \<and> parseAndFillPrompt rt parse prompt (td_variables td) = Inr fp
              \<and> call_provider w prov fp = Inr out \<longrightarrow>
            success r \<and> error r = None))
   \<and> (1 \<le> limit inp \<longrightarrow>
        (\<exists>rs log. run_evaluations E inp = Some (rs, log)
           \<and> length rs = length (traceIds inp)
           \<and> (\<forall>i < length (traceIds inp).
                 rs ! i = runSingleEval (env_regexp E) (env_parse E) (env_world E i)
                            (draftPrompt inp) (traceIds inp ! i) (provider inp)
                            (lookup_output (traceObservationPairs inp) (traceIds inp ! i)))))"
proof (intro conjI)
  show "let r = runSingleEval rt parse w prompt tid prov given in
        traceId r = tid
      \<and> (resolved w = None \<longrightarrow>
            \<not> success r \<and> error r = Some not_found_message \<and> latencyMs r = None)
      \<and> (\<forall>td e. resolved w = Some td
              \<and> parseAndFillPrompt rt parse prompt (td_variables td) = Inl e \<longrightarrow>
            \<not> success r \<and> error r = Some e \<and> latencyMs r = Some (endTime w - startTime w))
      \<and> (\<forall>td fp e. resolved w = Some td
              \<and> parseAndFillPrompt rt parse prompt (td_variables td) = Inr fp
              \<and> call_provider w prov fp = Inl e \<longrightarrow>
            \<not> success r \<and> error r = Some e \<and> latencyMs r = Some (endTime w - startTime w))
      \<and> (\<forall>td fp out. resolved w = Some td
              \<and> parseAndFillPrompt rt parse prompt (td_variables td) = Inr fp
              \<and> call_provider w prov fp = Inr out \<longrightarrow>
            success r \<and> error r = None)"
    by (auto simp: runSingleEval_def Let_def split: option.splits sum.splits prod.splits)
next
  show "1 \<le> limit inp \<longrightarrow>
        (\<exists>rs log. run_evaluations E inp = Some (rs, log)
           \<and> length rs = length (traceIds inp)
           \<and> (\<forall>i < length (traceIds inp).
                 rs ! i = runSingleEval (env_regexp E) (env_parse E) (env_world E i)
                            (draftPrompt inp) (traceIds inp ! i) (provider inp)
                            (lookup_output (traceObservationPairs inp) (traceIds inp ! i))))"
  proof
    assume "1 \<le> limit inp"
    from run_evaluations_closed [OF this, of E] show "\<exists>rs log. run_evaluations E inp = Some (rs, log)
           \<and> length rs = length (traceIds inp)
           \<and> (\<forall>i < length (traceIds inp).
                 rs ! i = runSingleEval (env_regexp E) (env_parse E) (env_world E i)
                            (draftPrompt inp) (traceIds inp ! i) (provider inp)
                            (lookup_output (traceObservationPairs inp) (traceIds inp ! i)))"
      by (simp add: nth_run_batch)
  qed
qed

theorem failure_is_recorded_and_isolated_witness:
  "(\<not> success (runSingleEval rejecting (\<lambda>s. None) (sample_world 1) ''Hello {{name}}!'' ''trace-B''
                openai NotProvided)
    \<and> error (runSingleEval rejecting (\<lambda>s. None) (sample_world 1) ''Hello {{name}}!'' ''trace-B''
                openai NotProvided) = Some not_found_message)
   \<and> (\<not> success (runSingleEval rejecting (\<lambda>s. None) (sample_world 2) ''Hello {{name}}!'' ''trace-C''
                openai NotProvided)
    \<and> error (runSingleEval rejecting (\<lambda>s. None) (sample_world 2) ''Hello {{name}}!'' ''trace-C''
                openai NotProvided) = Some ''rate limited''
    \<and> latencyMs (runSingleEval rejecting (\<lambda>s. None) (sample_world 2) ''Hello {{name}}!'' ''trace-C''
                openai NotProvided) = Some 2)
   \<and> (\<not> success (runSingleEval rejecting (\<lambda>s. None) (sample_world 2) ''Hello {{name}}!'' ''trace-C''
                gemini NotProvided)
    \<and> latencyMs (runSingleEval rejecting (\<lambda>s. None) (sample_world 2) ''Hello {{name}}!'' ''trace-C''
                gemini NotProvided) = Some 2)
   \<and> (\<not> success (runSingleEval rejecting (\<lambda>s. None)
                ((sample_world 6)\<lparr>resolved := Some \<lparr>td_variables = [(''a('', Str ''x'')],
                    td_originalOutput = None, td_source = ''trace:input'',
                    td_schema = False, td_tools = False\<rparr>\<rparr>)
                ''Hello {{name}}!'' ''trace-G'' openai NotProvided)
    \<and> error (runSingleEval rejecting (\<lambda>s. None)
                ((sample_world 6)\<lparr>resolved := Some \<lparr>td_variables = [(''a('', Str ''x'')],
                    td_originalOutput = None, td_source = ''trace:input'',
                    td_schema = False, td_tools = False\<rparr>\<rparr>)
                ''Hello {{name}}!'' ''trace-G'' openai NotProvided) = Some ''Invalid regular expression''
    \<and> latencyMs (runSingleEval rejecting (\<lambda>s. None)
                ((sample_world 6)\<lparr>resolved := Some \<lparr>td_variables = [(''a('', Str ''x'')],
                    td_originalOutput = None, td_source = ''trace:input'',
                    td_schema = False, td_tools = False\<rparr>\<rparr>)
                ''Hello {{name}}!'' ''trace-G'' openai NotProvided) = Some 6)
   \<and> success (runSingleEval rejecting (\<lambda>s. None) (sample_world 0) ''Hello {{name}}!'' ''trace-A''
                openai NotProvided)
   \<and> (\<exists>rs log. run_evaluations sample_env (sample_run 3) = Some (rs, log)
         \<and> map success rs = [True, False, False])"
proof -
  let ?td = "\<lparr>td_variables = [(''name'', Str ''Ada'')], td_originalOutput = Some ''Hi'',
      td_source = ''trace:metadata'', td_schema = False, td_tools = False\<rparr>"
  let ?bad = "\<lparr>td_variables = [(''a('', Str ''x'')], td_originalOutput = None,
      td_source = ''trace:input'', td_schema = False, td_tools = False\<rparr>"
  let ?w6 = "(sample_world 6)\<lparr>resolved := Some ?bad\<rparr>"
  have n1: "resolved (sample_world 1) = None"
    by (simp add: sample_world_def)
  have r2: "resolved (sample_world 2) = Some ?td" and r0: "resolved (sample_world 0) = Some ?td"
    by (simp_all add: sample_world_def)
  have t2: "endTime (sample_world 2) - startTime (sample_world 2) = 2"
    and t6: "endTime ?w6 - startTime ?w6 = 6" and r6: "resolved ?w6 = Some ?bad"
    by (simp_all add: sample_world_def)
  have f: "parseAndFillPrompt rejecting (\<lambda>s. None) ''Hello {{name}}!'' (td_variables ?td)
      = Inr (PlainText ''Hello Ada!'')"
    by code_simp
  have fb: "parseAndFillPrompt rejecting (\<lambda>s. None) ''Hello {{name}}!'' (td_variables ?bad)
      = Inl ''Invalid regular expression''"
    by code_simp
  have c2: "call_provider (sample_world 2) openai (PlainText ''Hello Ada!'') = Inl ''rate limited''"
    and g2: "call_provider (sample_world 2) gemini (PlainText ''Hello Ada!'') = Inl ''rate limited''"
    and c0: "call_provider (sample_world 0) openai (PlainText ''Hello Ada!'') = Inr (Some ''Hello!'', ())"
    by (simp_all add: call_provider_def sample_world_def)
  have h: "1 \<le> limit (sample_run 3)"
    by (simp add: limit_def sample_run_def)
  have s: "map success (run_batch sample_env (sample_run 3) 0 (traceIds (sample_run 3)))
      = [True, False, False]"
    by code_simp
  note a1 = failure_is_recorded_and_isolated
    [of rejecting "\<lambda>s. None" "sample_world 1" "''Hello {{name}}!''" "''trace-B''" openai NotProvided
      "sample_run 3" sample_env, unfolded Let_def]
  note a2 = failure_is_recorded_and_isolated
    [of rejecting "\<lambda>s. None" "sample_world 2" "''Hello {{name}}!''" "''trace-C''" openai NotProvided
      "sample_run 3" sample_env, unfolded Let_def]
  note a3 = failure_is_recorded_and_isolated
    [of rejecting "\<lambda>s. None" "sample_world 2" "''Hello {{name}}!''" "''trace-C''" gemini NotProvided
      "sample_run 3" sample_env, unfolded Let_def]
  note a6 = failure_is_recorded_and_isolated
    [of rejecting "\<lambda>s. None" ?w6 "''Hello {{name}}!''" "''trace-G''" openai NotProvided
      "sample_run 3" sample_env, unfolded Let_def]
  note a0 = failure_is_recorded_and_isolated
    [of rejecting "\<lambda>s. None" "sample_world 0" "''Hello {{name}}!''" "''trace-A''" openai NotProvided
      "sample_run 3" sample_env, unfolded Let_def]
  from a1 n1 have p1: "\<not> success (runSingleEval rejecting (\<lambda>s. None) (sample_world 1)
        ''Hello {{name}}!'' ''trace-B'' openai NotProvided)
      \<and> error (runSingleEval rejecting (\<lambda>s. None) (sample_world 1)
        ''Hello {{name}}!'' ''trace-B'' openai NotProvided) = Some not_found_message"
    by blast
  from a2 r2 f c2 t2 have p2: "\<not> success (runSingleEval rejecting (\<lambda>s. None) (sample_world 2)
        ''Hello {{name}}!'' ''trace-C'' openai NotProvided)
      \<and> error (runSingleEval rejecting (\<lambda>s. None) (sample_world 2)
        ''Hello {{name}}!'' ''trace-C'' openai NotProvided) = Some ''rate limited''
      \<and> latencyMs (runSingleEval rejecting (\<lambda>s. None) (sample_world 2)
        ''Hello {{name}}!'' ''trace-C'' openai NotProvided) = Some 2"
    by metis
  from a3 r2 f g2 t2 have p3: "\<not> success (runSingleEval rejecting (\<lambda>s. None) (sample_world 2)
        ''Hello {{name}}!'' ''trace-C'' gemini NotProvided)
      \<and> latencyMs (runSingleEval rejecting (\<lambda>s. None) (sample_world 2)
        ''Hello {{name}}!'' ''trace-C'' gemini NotProvided) = Some 2"
    by metis
  from a6 r6 fb t6 have p6: "\<not> success (runSingleEval rejecting (\<lambda>s. None) ?w6
        ''Hello {{name}}!'' ''trace-G'' openai NotProvided)
      \<and> error (runSingleEval rejecting (\<lambda>s. None) ?w6
        ''Hello {{name}}!'' ''trace-G'' openai NotProvided) = Some ''Invalid regular expression''
      \<and> latencyMs (runSingleEval rejecting (\<lambda>s. None) ?w6
        ''Hello {{name}}!'' ''trace-G'' openai NotProvided) = Some 6"
    by metis
  from a0 r0 f c0 have p0: "success (runSingleEval rejecting (\<lambda>s. None) (sample_world 0)
        ''Hello {{name}}!'' ''trace-A'' openai NotProvided)"
    by metis
  from a2 h obtain rs log where r: "run_evaluations sample_env (sample_run 3) = Some (rs, log)"
    by blast
  from run_evaluations_results [OF r] s have "map success rs = [True, False, False]"
    by simp
  with r have "\<exists>rs log. run_evaluations sample_env (sample_run 3) = Some (rs, log)
         \<and> map success rs = [True, False, False]"
    by auto
  with p1 p2 p3 p6 p0 show ?thesis
    by (intro conjI) (simp_all only: simp_thms)
qed

end
